theory Spec2Isabelle
  imports Main "HOL-Library.Sublist"
begin

section \<open>Exceptions and programs\<close>

text \<open>
  The service (\<^verbatim>\<open>app.py\<close>) drives one Firefox instance through Selenium. Every
  handler reads and mutates the global \<^verbatim>\<open>driver\<close> and may raise. A handler is
  modelled as a function from the state to a result and the state afterwards; the
  result is \<open>Inl e\<close> when the handler raises \<open>e\<close>. The state is returned on both
  branches, since what a handler did before it raised stays done.

  The \<^verbatim>\<open>detail\<close> texts of the source are Chinese literals; each is a constructor of
  \<open>message\<close>, named by its meaning. \<open>Fmt m e\<close> is the f-string \<^verbatim>\<open>f"{m}: {str(e)}"\<close>.
  Logging and \<^verbatim>\<open>time.sleep\<close> have no effect on the modelled state and are left out.
  \<^verbatim>\<open>driver_lock\<close> serialises the handlers; one handler at a time is modelled.
\<close>

datatype message =
    Browser_not_started
  | Browser_connection_failed
  | Screenshot_failed
  | Screenshot_completely_failed
  | Navigation_failed
  | Open_tab_failed
  | List_tabs_failed
  | Switch_tab_failed
  | Close_tab_failed
  | Missing_handle_parameter
  | Tab_does_not_exist
  | Cannot_close_last_tab
  | Missing_script
  | Execute_script_failed

datatype exn =
    HTTPException nat detail
  | TimeoutException
  | NoSuchElementException
  | NoSuchWindowException
  | WebDriverException
  | IndexError
  | TypeError
  | AttributeError
  | OSError
and detail =
    Lit message
  | Fmt message exn

type_synonym ('a, 's) prog = "'s \<Rightarrow> (exn + 'a) \<times> 's"

definition ret :: "'a \<Rightarrow> ('a, 's) prog" where
  "ret x s = (Inr x, s)"

definition raise :: "exn \<Rightarrow> ('a, 's) prog" where
  "raise e s = (Inl e, s)"

definition bnd :: "('a, 's) prog \<Rightarrow> ('a \<Rightarrow> ('b, 's) prog) \<Rightarrow> ('b, 's) prog" where
  "bnd m k s = (case m s of (Inl e, s') \<Rightarrow> (Inl e, s') | (Inr x, s') \<Rightarrow> k x s')"

text \<open>\<^verbatim>\<open>try: m  except ... as e: h e\<close>; the handler chooses by the class of \<open>e\<close>.\<close>

definition try_except :: "('a, 's) prog \<Rightarrow> (exn \<Rightarrow> ('a, 's) prog) \<Rightarrow> ('a, 's) prog" where
  "try_except m h s = (case m s of (Inl e, s') \<Rightarrow> h e s' | (Inr x, s') \<Rightarrow> (Inr x, s'))"

definition is_HTTPException :: "exn \<Rightarrow> bool" where
  "is_HTTPException e = (case e of HTTPException _ _ \<Rightarrow> True | _ \<Rightarrow> False)"

section \<open>The browser behind the driver\<close>

text \<open>
  Values a script returns to Python. JavaScript numbers are modelled as integers
  (scroll and window sizes are); \<open>JElement s\<close> is any object that is not JSON data
  (a WebElement, say), with \<open>s\<close> its \<^verbatim>\<open>str()\<close>.
\<close>

datatype js_value =
    JNone
  | JBool bool
  | JInt int
  | JStr string
  | JList "js_value list"
  | JDict "(string \<times> js_value) list"
  | JElement string

type_synonym handle = string
type_synonym bytes = "nat list"

record tab =
  tab_title :: string
  tab_url :: string
  loading :: nat
  images_loading :: nat
  scroll_width :: int
  scroll_height :: int
  pixels :: "int \<times> int \<Rightarrow> bytes"
  script_result :: "string \<Rightarrow> js_value"

text \<open>
  \<open>loading t\<close> is the number of further polls of \<^verbatim>\<open>document.readyState\<close> that still
  see an unfinished document, \<open>images_loading t\<close> the same for the images;
  \<open>pixels t sz\<close> is the PNG the browser produces for the tab in a window of size \<open>sz\<close>;
  \<open>script_result t\<close> is what the page answers to a script of the caller.
\<close>

datatype command =
    Get string
  | Get_title
  | Get_current_url
  | Get_window_handles
  | Get_current_window_handle
  | Switch_to_window handle
  | Close
  | Execute_script string
  | Get_screenshot_as_png
  | Get_window_size
  | Set_window_size int int

record webdriver =
  windows :: "(handle \<times> tab) list"
  current :: handle
  window_size :: "int \<times> int"
  web :: "string \<Rightarrow> tab"
  unused_handles :: "handle list"
  faults :: "(command \<Rightarrow> exn option) list"

text \<open>
  \<open>windows\<close> are the open windows (tabs) in the order of \<^verbatim>\<open>driver.window_handles\<close>; \<open>current\<close>
  is the window the session is switched to (it may be closed: Selenium then raises
  NoSuchWindowException); \<open>web u\<close> is the page a load of \<open>u\<close> yields;
  \<open>unused_handles\<close> names the windows still to be opened.

  A Selenium call can fail for reasons outside the program. \<open>faults\<close> scripts this:
  each command sent to the driver consumes one entry, and the entry says, for the
  command sent, whether the driver raises (and what) or answers. With no entry left
  the driver answers. A command that raises leaves the browser as it was.
\<close>

definition issue :: "command \<Rightarrow> ('a, webdriver) prog \<Rightarrow> ('a, webdriver) prog" where
  "issue c run d =
     (case faults d of
        [] \<Rightarrow> run d
      | f # fs \<Rightarrow>
          (case f c of
             None \<Rightarrow> run (d\<lparr>faults := fs\<rparr>)
           | Some e \<Rightarrow> (Inl e, d\<lparr>faults := fs\<rparr>)))"

definition on_window :: "(tab \<Rightarrow> ('a, webdriver) prog) \<Rightarrow> ('a, webdriver) prog" where
  "on_window k d =
     (case map_of (windows d) (current d) of
        None \<Rightarrow> (Inl NoSuchWindowException, d)
      | Some t \<Rightarrow> k t d)"

definition set_tab :: "tab \<Rightarrow> webdriver \<Rightarrow> webdriver" where
  "set_tab t d = d\<lparr>windows := map (\<lambda>(h, t'). if h = current d then (h, t) else (h, t')) (windows d)\<rparr>"

definition blank_tab :: "webdriver \<Rightarrow> tab" where
  "blank_tab d = web d ''about:blank''"

definition ready_state_script :: string where
  "ready_state_script = ''return document.readyState''"

definition images_complete_script :: string where
  "images_complete_script = ''return Array.from(document.images).every(img => img.complete)''"

definition scroll_width_script :: string where
  "scroll_width_script = ''return document.body.scrollWidth''"

definition scroll_height_script :: string where
  "scroll_height_script = ''return document.body.scrollHeight''"

definition inner_width_script :: string where
  "inner_width_script = ''return window.innerWidth''"

definition inner_height_script :: string where
  "inner_height_script = ''return window.innerHeight''"

definition window_open_script :: string where
  "window_open_script = ''window.open('' @ [CHR 0x27, CHR 0x27] @ '');''"

definition driver_get :: "string \<Rightarrow> (unit, webdriver) prog" where
  "driver_get u = issue (Get u) (on_window (\<lambda>t d. (Inr (), set_tab (web d u) d)))"

definition driver_title :: "(string, webdriver) prog" where
  "driver_title = issue Get_title (on_window (\<lambda>t. ret (tab_title t)))"

definition driver_current_url :: "(string, webdriver) prog" where
  "driver_current_url = issue Get_current_url (on_window (\<lambda>t. ret (tab_url t)))"

definition driver_window_handles :: "(handle list, webdriver) prog" where
  "driver_window_handles = issue Get_window_handles (\<lambda>d. (Inr (map fst (windows d)), d))"

definition driver_current_window_handle :: "(handle, webdriver) prog" where
  "driver_current_window_handle =
     issue Get_current_window_handle (on_window (\<lambda>t d. (Inr (current d), d)))"

definition driver_switch_to_window :: "handle \<Rightarrow> (unit, webdriver) prog" where
  "driver_switch_to_window h =
     issue (Switch_to_window h)
       (\<lambda>d. if h \<in> set (map fst (windows d)) then (Inr (), d\<lparr>current := h\<rparr>)
            else (Inl NoSuchWindowException, d))"

definition driver_close :: "(unit, webdriver) prog" where
  "driver_close =
     issue Close
       (on_window (\<lambda>t d. (Inr (), d\<lparr>windows := filter (\<lambda>(h, t'). h \<noteq> current d) (windows d)\<rparr>)))"

definition driver_get_screenshot_as_png :: "(bytes, webdriver) prog" where
  "driver_get_screenshot_as_png =
     issue Get_screenshot_as_png (on_window (\<lambda>t d. (Inr (pixels t (window_size d)), d)))"

definition driver_get_window_size :: "(int \<times> int, webdriver) prog" where
  "driver_get_window_size = issue Get_window_size (\<lambda>d. (Inr (window_size d), d))"

definition driver_set_window_size :: "int \<Rightarrow> int \<Rightarrow> (unit, webdriver) prog" where
  "driver_set_window_size w h =
     issue (Set_window_size w h) (\<lambda>d. (Inr (), d\<lparr>window_size := (w, h)\<rparr>))"

text \<open>
  What the browser does with a script in the current window \<open>t\<close>: the value it
  returns and the browser afterwards. The scripts the program itself sends have their
  browser meaning; any other script is answered by the page and changes nothing.
\<close>

definition run_script :: "string \<Rightarrow> tab \<Rightarrow> webdriver \<Rightarrow> js_value \<times> webdriver" where
  "run_script js t d =
     (if js = ready_state_script then
        (JStr (if loading t = 0 then ''complete'' else ''loading''),
         set_tab (t\<lparr>loading := loading t - 1\<rparr>) d)
      else if js = images_complete_script then
        (JBool (images_loading t = 0),
         set_tab (t\<lparr>images_loading := images_loading t - 1\<rparr>) d)
      else if js = scroll_width_script then (JInt (scroll_width t), d)
      else if js = scroll_height_script then (JInt (scroll_height t), d)
      else if js = inner_width_script then (JInt (fst (window_size d)), d)
      else if js = inner_height_script then (JInt (snd (window_size d)), d)
      else if js = window_open_script then
        (case unused_handles d of
           [] \<Rightarrow> (JNone, d)
         | h # hs \<Rightarrow> (JNone, d\<lparr>windows := windows d @ [(h, blank_tab d)], unused_handles := hs\<rparr>))
      else (script_result t js, d))"

definition driver_execute_script :: "string \<Rightarrow> (js_value, webdriver) prog" where
  "driver_execute_script js =
     issue (Execute_script js)
       (on_window (\<lambda>t d. (Inr (fst (run_script js t d)), snd (run_script js t d))))"

text \<open>Python's truth value of a script result (\<^verbatim>\<open>if value:\<close>).\<close>

fun truthy :: "js_value \<Rightarrow> bool" where
  "truthy JNone = False"
| "truthy (JBool b) = b"
| "truthy (JInt n) = (n \<noteq> 0)"
| "truthy (JStr s) = (s \<noteq> [])"
| "truthy (JList xs) = (xs \<noteq> [])"
| "truthy (JDict kvs) = (kvs \<noteq> [])"
| "truthy (JElement s) = True"

text \<open>
  \<^verbatim>\<open>WebDriverWait(driver, timeout).until(method)\<close>: call \<open>method\<close>; return if its value
  is true; a NoSuchElementException is ignored; any other exception leaves the loop;
  sleep and call again until the time is over, then raise TimeoutException. The loop
  body runs at least once. Time is not modelled: \<open>until n\<close> has \<open>n\<close> further calls
  left, and a wait of \<open>t\<close> seconds has \<open>polls t\<close> of them at the poll interval of 0.5 s.
\<close>

fun until :: "nat \<Rightarrow> (bool, webdriver) prog \<Rightarrow> (unit, webdriver) prog" where
  "until 0 method d =
     (case method d of
        (Inr v, d') \<Rightarrow> if v then (Inr (), d') else (Inl TimeoutException, d')
      | (Inl e, d') \<Rightarrow>
          if e = NoSuchElementException then (Inl TimeoutException, d') else (Inl e, d'))"
| "until (Suc n) method d =
     (case method d of
        (Inr v, d') \<Rightarrow> if v then (Inr (), d') else until n method d'
      | (Inl e, d') \<Rightarrow>
          if e = NoSuchElementException then until n method d' else (Inl e, d'))"

definition polls :: "nat \<Rightarrow> nat" where
  "polls timeout = 2 * timeout"

definition ready_state_is_complete :: "(bool, webdriver) prog" where
  "ready_state_is_complete =
     bnd (driver_execute_script ready_state_script) (\<lambda>v. ret (v = JStr ''complete''))"

definition images_are_complete :: "(bool, webdriver) prog" where
  "images_are_complete =
     bnd (driver_execute_script images_complete_script) (\<lambda>v. ret (truthy v))"

section \<open>The application state\<close>

text \<open>
  The global \<^verbatim>\<open>driver\<close> (\<open>None\<close>: the browser is not started) and the part of the
  file system the screenshot handler writes: whether the directory \<^verbatim>\<open>temp\<close> exists,
  the files in it, whether the file system accepts a write (else \<^verbatim>\<open>os.makedirs\<close> and
  \<^verbatim>\<open>open\<close> raise OSError), and the values \<^verbatim>\<open>uuid.uuid4()\<close> draws.
\<close>

record app_state =
  driver :: "webdriver option"
  temp_exists :: bool
  files :: "string \<rightharpoonup> bytes"
  fs_writable :: bool
  uuids :: "nat \<Rightarrow> string"
  uuids_drawn :: nat

text \<open>
  A Selenium call on the global driver. Behind the \<^verbatim>\<open>driver is None\<close> test of a
  handler the driver is there; on \<open>None\<close> the attribute access would raise.
\<close>

definition on_driver :: "('a, webdriver) prog \<Rightarrow> ('a, app_state) prog" where
  "on_driver p s =
     (case driver s of
        None \<Rightarrow> (Inl AttributeError, s)
      | Some d \<Rightarrow> (case p d of (r, d') \<Rightarrow> (r, s\<lparr>driver := Some d'\<rparr>)))"

definition os_path_exists_temp :: "(bool, app_state) prog" where
  "os_path_exists_temp s = (Inr (temp_exists s), s)"

definition os_makedirs_temp :: "(unit, app_state) prog" where
  "os_makedirs_temp s =
     (if fs_writable s \<and> \<not> temp_exists s then (Inr (), s\<lparr>temp_exists := True\<rparr>)
      else (Inl OSError, s))"

definition uuid4 :: "(string, app_state) prog" where
  "uuid4 s = (Inr (uuids s (uuids_drawn s)), s\<lparr>uuids_drawn := Suc (uuids_drawn s)\<rparr>)"

definition write_file :: "string \<Rightarrow> bytes \<Rightarrow> (unit, app_state) prog" where
  "write_file filename content s =
     (if fs_writable s \<and> temp_exists s then (Inr (), s\<lparr>files := (files s)(filename \<mapsto> content)\<rparr>)
      else (Inl OSError, s))"

section \<open>Requests and responses\<close>

record URLRequest =
  url :: string

record TabRequest =
  handle :: "string option"
  url :: "string option"

record ScriptRequest =
  script :: string

record TabInfo =
  handle :: string
  title :: string
  url :: string
  is_current :: bool

record TabListResponse =
  tabs :: "TabInfo list"
  count :: nat

record StatusResponse =
  browser_running :: bool
  title :: "string option"
  url :: "string option"
  window_handles :: "string list option"
  current_window_handle :: "string option"
  tabs_count :: "nat option"

record BasicResponse =
  title :: "string option"
  url :: "string option"

record TabOperationResponse = BasicResponse +
  window_handle :: "string option"
  remaining_tabs :: "nat option"

record ScriptResponse =
  result :: js_value

record FileResponse =
  path :: string

text \<open>Python's \<^verbatim>\<open>not x\<close> on an optional string: \<open>None\<close> and the empty string are false.\<close>

definition falsy :: "string option \<Rightarrow> bool" where
  "falsy x = (x = None \<or> x = Some [])"

section \<open>Helpers of the handlers\<close>

definition format_url :: "string \<Rightarrow> string" where
  "format_url u =
     (if \<not> (prefix ''http://'' u \<or> prefix ''https://'' u) then ''https://'' @ u else u)"

definition wait_for_page_load :: "nat \<Rightarrow> (unit, webdriver) prog" where
  "wait_for_page_load timeout =
     try_except
       (bnd (until (polls timeout) ready_state_is_complete) (\<lambda>_.
        until (polls 10) images_are_complete))
       (\<lambda>e. if e = TimeoutException then ret () else ret ())"

definition wait_for_page_load_safely :: "nat \<Rightarrow> (unit, webdriver) prog" where
  "wait_for_page_load_safely timeout =
     try_except
       (until (polls timeout) ready_state_is_complete)
       (\<lambda>e. if e = TimeoutException then ret () else ret ())"

text \<open>
  \<^verbatim>\<open>x <= 0\<close> on a script result raises TypeError unless \<open>x\<close> is a number (a Python
  bool is one).
\<close>

definition as_int :: "js_value \<Rightarrow> (int, 's) prog" where
  "as_int v =
     (case v of
        JInt n \<Rightarrow> ret n
      | JBool b \<Rightarrow> ret (if b then 1 else 0)
      | _ \<Rightarrow> raise TypeError)"

text \<open>
  The page size to resize to: \<^verbatim>\<open>if total_width <= 0 or total_height <= 0\<close> replaces
  both by 1920 x 1080; \<^verbatim>\<open>or\<close> does not look at the height when the width decides.
\<close>

definition page_size :: "js_value \<Rightarrow> js_value \<Rightarrow> (int \<times> int, 's) prog" where
  "page_size total_width total_height =
     bnd (as_int total_width) (\<lambda>w.
       if w \<le> 0 then ret (1920, 1080)
       else bnd (as_int total_height) (\<lambda>h.
         if h \<le> 0 then ret (1920, 1080) else ret (w, h)))"

definition resize_and_capture :: "int \<times> int \<Rightarrow> int \<times> int \<Rightarrow> bytes \<Rightarrow> (bytes, webdriver) prog" where
  "resize_and_capture total_size original_size backup_screenshot =
     try_except
       (bnd (driver_set_window_size (fst total_size) (snd total_size)) (\<lambda>_.
        bnd driver_get_screenshot_as_png (\<lambda>screenshot.
        bnd (driver_set_window_size (fst original_size) (snd original_size)) (\<lambda>_.
        ret screenshot))))
       (\<lambda>e.
        bnd (try_except
               (driver_set_window_size (fst original_size) (snd original_size))
               (\<lambda>_. ret ())) (\<lambda>_.
        ret backup_screenshot))"

definition take_full_page_screenshot_safely :: "(bytes, webdriver) prog" where
  "take_full_page_screenshot_safely =
     try_except
       (bnd driver_get_screenshot_as_png (\<lambda>backup_screenshot.
        try_except
          (bnd (driver_execute_script scroll_width_script) (\<lambda>total_width.
           bnd (driver_execute_script scroll_height_script) (\<lambda>total_height.
           bnd (page_size total_width total_height) (\<lambda>total_size.
           bnd (driver_execute_script inner_width_script) (\<lambda>current_width.
           bnd (driver_execute_script inner_height_script) (\<lambda>current_height.
           bnd driver_get_window_size (\<lambda>original_size.
           resize_and_capture total_size original_size backup_screenshot)))))))
          (\<lambda>e. ret backup_screenshot)))
       (\<lambda>e.
        try_except
          driver_get_screenshot_as_png
          (\<lambda>final_error. raise (HTTPException 500 (Lit Screenshot_completely_failed))))"

text \<open>
  The serialisation of a script result: \<^verbatim>\<open>json.loads(json.dumps(result, default=str))\<close>
  turns every object that is not JSON data into its string.
\<close>

primrec json_roundtrip :: "js_value \<Rightarrow> js_value" where
  "json_roundtrip JNone = JNone"
| "json_roundtrip (JBool b) = JBool b"
| "json_roundtrip (JInt n) = JInt n"
| "json_roundtrip (JStr s) = JStr s"
| "json_roundtrip (JList xs) = JList (map json_roundtrip xs)"
| "json_roundtrip (JDict kvs) = JDict (map (map_prod id json_roundtrip) kvs)"
| "json_roundtrip (JElement s) = JStr s"

definition serialise :: "js_value \<Rightarrow> js_value" where
  "serialise r =
     (case r of
        JNone \<Rightarrow> JNone
      | JStr s \<Rightarrow> r
      | JInt n \<Rightarrow> r
      | JBool b \<Rightarrow> r
      | JList xs \<Rightarrow> json_roundtrip r
      | JDict kvs \<Rightarrow> json_roundtrip r
      | JElement s \<Rightarrow> JStr s)"

text \<open>
  The loop of \<^verbatim>\<open>list_tabs\<close> over the handles, with the list built so far.
\<close>

primrec visit_tabs :: "string \<Rightarrow> string list \<Rightarrow> TabInfo list \<Rightarrow> (TabInfo list, webdriver) prog" where
  "visit_tabs current_handle [] acc = ret acc"
| "visit_tabs current_handle (h # hs) acc =
     bnd (driver_switch_to_window h) (\<lambda>_.
     bnd driver_title (\<lambda>t.
     bnd driver_current_url (\<lambda>u.
     visit_tabs current_handle hs
       (acc @ [\<lparr>TabInfo.handle = h, title = t, url = u, is_current = (h = current_handle)\<rparr>]))))"

text \<open>\<^verbatim>\<open>xs[0]\<close> and \<^verbatim>\<open>xs[-1]\<close> raise IndexError on the empty list.\<close>

definition first_of :: "'a list \<Rightarrow> ('a, 's) prog" where
  "first_of xs = (case xs of [] \<Rightarrow> raise IndexError | x # _ \<Rightarrow> ret x)"

definition last_of :: "'a list \<Rightarrow> ('a, 's) prog" where
  "last_of xs = (if xs = [] then raise IndexError else ret (last xs))"

definition not_started :: exn where
  "not_started = HTTPException 422 (Lit Browser_not_started)"

section \<open>The handlers\<close>

text \<open>
  \<^verbatim>\<open>GET /api/screenshot\<close>. \<open>save_image\<close> is the end of the handler: create
  \<^verbatim>\<open>temp\<close> if it is not there, write the image to a file named by a fresh uuid, answer
  with that file.
\<close>

definition save_image :: "bytes \<Rightarrow> (FileResponse, app_state) prog" where
  "save_image screenshot =
     bnd os_path_exists_temp (\<lambda>exists.
     bnd (if \<not> exists then os_makedirs_temp else ret ()) (\<lambda>_.
     bnd uuid4 (\<lambda>u.
     bnd (write_file (''temp/screenshot_'' @ u @ ''.png'') screenshot) (\<lambda>_.
     ret \<lparr>path = ''temp/screenshot_'' @ u @ ''.png''\<rparr>))))"

definition take_screenshot :: "(FileResponse, app_state) prog" where
  "take_screenshot s =
     (case driver s of
        None \<Rightarrow> raise not_started s
      | Some _ \<Rightarrow>
          try_except
            (bnd (try_except
                    (on_driver driver_current_url)
                    (\<lambda>e. raise (HTTPException 500 (Lit Browser_connection_failed)))) (\<lambda>_.
             bnd (on_driver (wait_for_page_load_safely 15)) (\<lambda>_.
             bnd (try_except
                    (on_driver driver_get_screenshot_as_png)
                    (\<lambda>e. on_driver take_full_page_screenshot_safely)) (\<lambda>screenshot.
             save_image screenshot))))
            (\<lambda>e. if is_HTTPException e then raise e
                 else raise (HTTPException 500 (Fmt Screenshot_failed e))) s)"

text \<open>\<^verbatim>\<open>POST /api/navigate\<close>\<close>

definition title_and_url :: "(BasicResponse, app_state) prog" where
  "title_and_url =
     bnd (on_driver driver_title) (\<lambda>t.
     bnd (on_driver driver_current_url) (\<lambda>u.
     ret \<lparr>BasicResponse.title = Some t, url = Some u\<rparr>))"

definition navigate_to_url :: "URLRequest \<Rightarrow> (BasicResponse, app_state) prog" where
  "navigate_to_url request s =
     (case driver s of
        None \<Rightarrow> raise not_started s
      | Some _ \<Rightarrow>
          try_except
            (bnd (on_driver (driver_get (format_url (URLRequest.url request)))) (\<lambda>_.
             bnd (on_driver (wait_for_page_load 30)) (\<lambda>_.
             title_and_url)))
            (\<lambda>e. if e = TimeoutException then title_and_url
                 else raise (HTTPException 500 (Fmt Navigation_failed e))) s)"

text \<open>\<^verbatim>\<open>POST /api/open_tab\<close>\<close>

definition open_new_tab :: "TabRequest \<Rightarrow> (TabOperationResponse, app_state) prog" where
  "open_new_tab request s =
     (case driver s of
        None \<Rightarrow> raise not_started s
      | Some _ \<Rightarrow>
          try_except
            (bnd (on_driver (driver_execute_script window_open_script)) (\<lambda>_.
             bnd (on_driver driver_window_handles) (\<lambda>hs.
             bnd (last_of hs) (\<lambda>h.
             bnd (on_driver (driver_switch_to_window h)) (\<lambda>_.
             bnd (if falsy (TabRequest.url request) \<or> TabRequest.url request = Some ''about:blank''
                  then ret ''about:blank''
                  else bnd (on_driver (driver_get (format_url (the (TabRequest.url request))))) (\<lambda>_.
                       bnd (on_driver (wait_for_page_load 30)) (\<lambda>_.
                       ret (format_url (the (TabRequest.url request)))))) (\<lambda>u.
             bnd (on_driver driver_title) (\<lambda>t.
             bnd (on_driver driver_current_window_handle) (\<lambda>w.
             ret \<lparr>BasicResponse.title = Some t, url = Some u,
                  window_handle = Some w, remaining_tabs = None\<rparr>))))))))
            (\<lambda>e. raise (HTTPException 500 (Fmt Open_tab_failed e))) s)"

text \<open>\<^verbatim>\<open>GET /api/tabs\<close>\<close>

definition list_tabs :: "(TabListResponse, app_state) prog" where
  "list_tabs s =
     (case driver s of
        None \<Rightarrow> raise not_started s
      | Some _ \<Rightarrow>
          try_except
            (bnd (on_driver driver_current_window_handle) (\<lambda>current_handle.
             bnd (on_driver driver_window_handles) (\<lambda>hs.
             bnd (on_driver (visit_tabs current_handle hs [])) (\<lambda>tabs.
             bnd (on_driver (driver_switch_to_window current_handle)) (\<lambda>_.
             ret \<lparr>TabListResponse.tabs = tabs, count = length tabs\<rparr>)))))
            (\<lambda>e. raise (HTTPException 500 (Fmt List_tabs_failed e))) s)"

text \<open>\<^verbatim>\<open>POST /api/switch_tab\<close>\<close>

definition switch_tab :: "TabRequest \<Rightarrow> (BasicResponse, app_state) prog" where
  "switch_tab request s =
     (if falsy (TabRequest.handle request)
      then raise (HTTPException 400 (Lit Missing_handle_parameter)) s
      else case driver s of
        None \<Rightarrow> raise not_started s
      | Some _ \<Rightarrow>
          try_except
            (bnd (on_driver driver_window_handles) (\<lambda>hs.
             bnd (if the (TabRequest.handle request) \<notin> set hs
                  then raise (HTTPException 404 (Lit Tab_does_not_exist)) else ret ()) (\<lambda>_.
             bnd (on_driver (driver_switch_to_window (the (TabRequest.handle request)))) (\<lambda>_.
             title_and_url))))
            (\<lambda>e. raise (HTTPException 500 (Fmt Switch_tab_failed e))) s)"

text \<open>\<^verbatim>\<open>POST /api/close_tab\<close>\<close>

definition close_tab :: "TabRequest \<Rightarrow> (TabOperationResponse, app_state) prog" where
  "close_tab request s =
     (case driver s of
        None \<Rightarrow> raise not_started s
      | Some _ \<Rightarrow>
          try_except
            (bnd (if falsy (TabRequest.handle request) then on_driver driver_current_window_handle
                  else ret (the (TabRequest.handle request))) (\<lambda>tab_handle.
             bnd (on_driver driver_window_handles) (\<lambda>hs.
             bnd (if tab_handle \<notin> set hs
                  then raise (HTTPException 404 (Lit Tab_does_not_exist)) else ret ()) (\<lambda>_.
             bnd (on_driver driver_window_handles) (\<lambda>hs1.
             bnd (if length hs1 = 1
                  then raise (HTTPException 400 (Lit Cannot_close_last_tab)) else ret ()) (\<lambda>_.
             bnd (on_driver (driver_switch_to_window tab_handle)) (\<lambda>_.
             bnd (on_driver driver_close) (\<lambda>_.
             bnd (on_driver driver_window_handles) (\<lambda>hs2.
             bnd (first_of hs2) (\<lambda>h.
             bnd (on_driver (driver_switch_to_window h)) (\<lambda>_.
             bnd (on_driver driver_window_handles) (\<lambda>hs3.
             ret \<lparr>BasicResponse.title = None, url = None,
                  window_handle = None, remaining_tabs = Some (length hs3)\<rparr>))))))))))))
            (\<lambda>e. raise (HTTPException 500 (Fmt Close_tab_failed e))) s)"

text \<open>
  \<^verbatim>\<open>POST /api/execute_script\<close>. The inner \<^verbatim>\<open>try\<close> around the serialisation has no
  branch here: \<open>serialise\<close> is total on the modelled values.
\<close>

definition execute_script :: "ScriptRequest \<Rightarrow> (ScriptResponse, app_state) prog" where
  "execute_script request s =
     (if script request = []
      then raise (HTTPException 400 (Lit Missing_script)) s
      else case driver s of
        None \<Rightarrow> raise not_started s
      | Some _ \<Rightarrow>
          try_except
            (bnd (on_driver (driver_execute_script (script request))) (\<lambda>r.
             ret \<lparr>result = serialise r\<rparr>))
            (\<lambda>e. raise (HTTPException 500 (Fmt Execute_script_failed e))) s)"

text \<open>\<^verbatim>\<open>GET /api/status\<close>: no \<^verbatim>\<open>try\<close>; what the driver raises leaves the handler.\<close>

definition get_status :: "(StatusResponse, app_state) prog" where
  "get_status s =
     (case driver s of
        None \<Rightarrow>
          ret \<lparr>browser_running = False, title = None, url = None, window_handles = None,
               current_window_handle = None, tabs_count = None\<rparr> s
      | Some _ \<Rightarrow>
          (bnd (on_driver driver_title) (\<lambda>t.
           bnd (on_driver driver_current_url) (\<lambda>u.
           bnd (on_driver driver_window_handles) (\<lambda>hs.
           bnd (on_driver driver_current_window_handle) (\<lambda>h.
           bnd (on_driver driver_window_handles) (\<lambda>hs1.
           ret \<lparr>browser_running = True, title = Some t, url = Some u,
                window_handles = Some hs, current_window_handle = Some h,
                tabs_count = Some (length hs1)\<rparr>)))))) s)"

text \<open>The routes of the service that reach the browser, and their dispatch.\<close>

datatype operation =
    Api_screenshot
  | Api_navigate URLRequest
  | Api_open_tab TabRequest
  | Api_tabs
  | Api_switch_tab TabRequest
  | Api_close_tab TabRequest
  | Api_execute_script ScriptRequest
  | Api_status

datatype response =
    File FileResponse
  | Basic BasicResponse
  | TabOperation TabOperationResponse
  | TabList TabListResponse
  | Script ScriptResponse
  | Status StatusResponse

definition answer :: "('a \<Rightarrow> response) \<Rightarrow> ('a, app_state) prog \<Rightarrow> (response, app_state) prog" where
  "answer wrap m = bnd m (\<lambda>x. ret (wrap x))"

fun handle_request :: "operation \<Rightarrow> (response, app_state) prog" where
  "handle_request Api_screenshot = answer File take_screenshot"
| "handle_request (Api_navigate request) = answer Basic (navigate_to_url request)"
| "handle_request (Api_open_tab request) = answer TabOperation (open_new_tab request)"
| "handle_request Api_tabs = answer TabList list_tabs"
| "handle_request (Api_switch_tab request) = answer Basic (switch_tab request)"
| "handle_request (Api_close_tab request) = answer TabOperation (close_tab request)"
| "handle_request (Api_execute_script request) = answer Script (execute_script request)"
| "handle_request Api_status = answer Status get_status"

section \<open>Example states\<close>

definition page :: "string \<Rightarrow> tab" where
  "page u =
     \<lparr>tab_title = ''Page at '' @ u, tab_url = u, loading = 0, images_loading = 0,
      scroll_width = 1280, scroll_height = 4000,
      pixels = (\<lambda>(w, h). [137, 80, 78, 71, nat w, nat h]),
      script_result = (\<lambda>_. JNone)\<rparr>"

definition two_tabs :: webdriver where
  "two_tabs =
     \<lparr>windows = [(''A'', page ''https://www.bing.com/''), (''B'', page ''https://example.com/'')],
      current = ''A'', window_size = (2560, 1440), web = page,
      unused_handles = [''C'', ''D''], faults = []\<rparr>"

definition one_tab :: webdriver where
  "one_tab = two_tabs\<lparr>windows := [(''A'', page ''https://www.bing.com/'')]\<rparr>"

definition running :: "webdriver \<Rightarrow> app_state" where
  "running d =
     \<lparr>driver = Some d, temp_exists = False, files = Map.empty, fs_writable = True,
      uuids = (\<lambda>n. replicate (Suc n) CHR ''7''), uuids_drawn = 0\<rparr>"

definition stopped :: app_state where
  "stopped =
     \<lparr>driver = None, temp_exists = False, files = Map.empty, fs_writable = True,
      uuids = (\<lambda>n. replicate (Suc n) CHR ''7''), uuids_drawn = 0\<rparr>"

text \<open>Fault entries: the driver answers, or raises whatever the command.\<close>

definition answered :: "command \<Rightarrow> exn option" where
  "answered c = None"

definition refused :: "exn \<Rightarrow> command \<Rightarrow> exn option" where
  "refused e c = Some e"

definition refusing :: "command \<Rightarrow> exn \<Rightarrow> command \<Rightarrow> exn option" where
  "refusing c e c' = (if c' = c then Some e else None)"


text \<open>The \<^verbatim>\<open>current_url\<close> probe of the screenshot handler is refused, nothing else.\<close>

definition probe_refused :: webdriver where
  "probe_refused = two_tabs\<lparr>faults := [refusing Get_current_url WebDriverException]\<rparr>"

text \<open>
  Seven commands are answered (in \<open>take_full_page_screenshot_safely\<close>: the backup
  capture, four scripts, the window size, the resize); then the capture in the
  resized window is refused. In \<open>lost_after_resize\<close> the driver answers nothing any
  more from there.
\<close>

definition capture_refused_after_resize :: webdriver where
  "capture_refused_after_resize =
     two_tabs\<lparr>faults := [answered, answered, answered, answered, answered, answered, answered,
                         refusing Get_screenshot_as_png WebDriverException]\<rparr>"

definition lost_after_resize :: webdriver where
  "lost_after_resize =
     two_tabs\<lparr>faults := [answered, answered, answered, answered, answered, answered, answered,
                         refused WebDriverException, refused WebDriverException]\<rparr>"

text \<open>
  In \<open>list_tabs\<close>: the current handle, the handles, the visit of window A (switch,
  title, url) and the switch to window B are answered; the title of B is refused.
\<close>

definition title_of_B_refused :: webdriver where
  "title_of_B_refused =
     two_tabs\<lparr>faults := [answered, answered, answered, answered, answered, answered,
                         refusing Get_title WebDriverException]\<rparr>"

text \<open>The page load of a navigation runs into the page-load timeout.\<close>

definition load_times_out :: webdriver where
  "load_times_out = two_tabs\<lparr>faults := [refused TimeoutException]\<rparr>"

section \<open>Specifications of programs\<close>

text \<open>
  \<open>triple P m Q E\<close>: started in a state with \<open>P\<close>, the program \<open>m\<close> either returns
  \<open>x\<close> in a state with \<open>Q x\<close> or raises \<open>e\<close> in a state with \<open>E e\<close>.
\<close>

definition triple ::
  "('s \<Rightarrow> bool) \<Rightarrow> ('a, 's) prog \<Rightarrow> ('a \<Rightarrow> 's \<Rightarrow> bool) \<Rightarrow> (exn \<Rightarrow> 's \<Rightarrow> bool) \<Rightarrow> bool" where
  "triple P m Q E =
     (\<forall>s. P s \<longrightarrow> (case m s of (Inr x, s') \<Rightarrow> Q x s' | (Inl e, s') \<Rightarrow> E e s'))"

text \<open>The driver answers the next command if it is \<open>c\<close>.\<close>

definition answers :: "command \<Rightarrow> webdriver \<Rightarrow> bool" where
  "answers c d = (case faults d of [] \<Rightarrow> True | f # _ \<Rightarrow> f c = None)"

text \<open>No entry of the fault script makes the driver refuse the command \<open>c\<close>.\<close>

definition never_refuses :: "command \<Rightarrow> webdriver \<Rightarrow> bool" where
  "never_refuses c d = (\<forall>f \<in> set (faults d). f c = None)"

text \<open>
  The window has the size \<open>W\<close>, and the driver will not refuse to set it to \<open>W\<close>.
\<close>

definition size_kept :: "int \<times> int \<Rightarrow> webdriver \<Rightarrow> bool" where
  "size_kept W d = (window_size d = W \<and> never_refuses (Set_window_size (fst W) (snd W)) d)"

text \<open>
  The current window shows the page \<open>t\<close>, up to how far it has loaded.
\<close>

definition same_view :: "tab \<Rightarrow> webdriver \<Rightarrow> bool" where
  "same_view t d =
     (\<exists>t'. map_of (windows d) (current d) = Some t' \<and> tab_title t' = tab_title t
           \<and> tab_url t' = tab_url t \<and> pixels t' = pixels t)"

text \<open>
  The current window shows \<open>t\<close> in a window of size \<open>W\<close>, and the driver will
  not refuse a command of \<open>C\<close>.
\<close>

definition calm :: "command set \<Rightarrow> tab \<Rightarrow> int \<times> int \<Rightarrow> webdriver \<Rightarrow> bool" where
  "calm C t W d = (same_view t d \<and> window_size d = W \<and> (\<forall>c\<in>C. never_refuses c d))"

text \<open>
  The driver after one more command that left the browser as it was: one entry of the
  fault script is consumed.
\<close>

definition skip_fault :: "webdriver \<Rightarrow> webdriver" where
  "skip_fault d = d\<lparr>faults := tl (faults d)\<rparr>"

text \<open>
  The driver as the screenshot handler finds it when it makes its first capture: after
  the \<^verbatim>\<open>current_url\<close> probe and the wait for the page.
\<close>

definition before_capture :: "webdriver \<Rightarrow> webdriver" where
  "before_capture d = snd (wait_for_page_load_safely 15 (snd (driver_current_url d)))"

text \<open>The error of the screenshot handler when no capture could be made.\<close>

definition capture_failed :: exn where
  "capture_failed = HTTPException 500 (Lit Screenshot_completely_failed)"

text \<open>
  The driver \<open>d\<close> after a load of the page \<open>p\<close> in its current window: the window holds
  \<open>p\<close>, up to how far it has loaded; nothing else has changed.
\<close>

definition loaded :: "webdriver \<Rightarrow> tab \<Rightarrow> webdriver \<Rightarrow> bool" where
  "loaded d p d' = (\<exists>a b. d' = set_tab (p\<lparr>loading := a, images_loading := b\<rparr>) d)"

text \<open>More example states.\<close>

text \<open>
  The probe and the poll of the wait are answered, the first capture of the handler is
  refused, the backup capture of the helper is answered, and the script that reads the
  scroll width is refused.
\<close>

definition first_capture_refused :: webdriver where
  "first_capture_refused =
     two_tabs\<lparr>faults := [answered, answered,
                         refusing Get_screenshot_as_png WebDriverException, answered,
                         refusing (Execute_script scroll_width_script) WebDriverException]\<rparr>"

text \<open>
  The page load times out, and the driver then refuses the read of the title.
\<close>

definition title_refused_after_timeout :: webdriver where
  "title_refused_after_timeout =
     two_tabs\<lparr>faults := [refused TimeoutException, refused WebDriverException]\<rparr>"


text \<open>A web whose pages never finish loading within the waits of the program.\<close>

definition slow_page :: "string \<Rightarrow> tab" where
  "slow_page u = (page u)\<lparr>loading := 1000, images_loading := 1000\<rparr>"

definition slow_web :: webdriver where
  "slow_web = two_tabs\<lparr>web := slow_page\<rparr>"

text \<open>The errors the screenshot handler can answer with while a browser is there.\<close>

definition screenshot_errors :: "exn set" where
  "screenshot_errors =
     {HTTPException 500 (Lit Browser_connection_failed),
      HTTPException 500 (Lit Screenshot_completely_failed),
      HTTPException 500 (Fmt Screenshot_failed OSError)}"

section \<open>Rules for specifications\<close>

lemma triple_ret: "(\<And>s. P s \<Longrightarrow> Q x s) \<Longrightarrow> triple P (ret x) Q E"
  by (simp add: triple_def ret_def)

lemma triple_raise: "(\<And>s. P s \<Longrightarrow> E e s) \<Longrightarrow> triple P (raise e) Q E"
  by (simp add: triple_def raise_def)

lemma triple_bnd:
  assumes "triple P m R E" and "\<And>x. triple (R x) (k x) Q E"
  shows "triple P (bnd m k) Q E"
  unfolding triple_def
proof (intro allI impI)
  fix s assume "P s"
  with assms(1) have 1: "case m s of (Inr x, s') \<Rightarrow> R x s' | (Inl e, s') \<Rightarrow> E e s'"
    by (simp add: triple_def)
  show "case bnd m k s of (Inr x, s') \<Rightarrow> Q x s' | (Inl e, s') \<Rightarrow> E e s'"
  proof (cases "m s")
    case (Pair r s')
    show ?thesis
    proof (cases r)
      case (Inl e)
      with Pair 1 show ?thesis by (simp add: bnd_def)
    next
      case (Inr x)
      with Pair 1 have "R x s'" by simp
      with assms(2) [of x] have "case k x s' of (Inr y, s'') \<Rightarrow> Q y s'' | (Inl e, s'') \<Rightarrow> E e s''"
        by (simp add: triple_def)
      with Pair Inr show ?thesis by (simp add: bnd_def)
    qed
  qed
qed

lemma triple_try:
  assumes "triple P m Q R" and "\<And>e. triple (R e) (h e) Q E"
  shows "triple P (try_except m h) Q E"
  unfolding triple_def
proof (intro allI impI)
  fix s assume "P s"
  with assms(1) have 1: "case m s of (Inr x, s') \<Rightarrow> Q x s' | (Inl e, s') \<Rightarrow> R e s'"
    by (simp add: triple_def)
  show "case try_except m h s of (Inr x, s') \<Rightarrow> Q x s' | (Inl e, s') \<Rightarrow> E e s'"
  proof (cases "m s")
    case (Pair r s')
    show ?thesis
    proof (cases r)
      case (Inr x)
      with Pair 1 show ?thesis by (simp add: try_except_def)
    next
      case (Inl e)
      with Pair 1 have "R e s'" by simp
      with assms(2) [of e] have "case h e s' of (Inr y, s'') \<Rightarrow> Q y s'' | (Inl e', s'') \<Rightarrow> E e' s''"
        by (simp add: triple_def)
      with Pair Inl show ?thesis by (simp add: try_except_def)
    qed
  qed
qed

lemma triple_weaken:
  assumes t: "triple P' m Q' E'" and p: "\<And>s. P s \<Longrightarrow> P' s"
    and q: "\<And>x s. Q' x s \<Longrightarrow> Q x s" and e: "\<And>e s. E' e s \<Longrightarrow> E e s"
  shows "triple P m Q E"
  unfolding triple_def
proof (intro allI impI)
  fix s assume "P s"
  then have "P' s" by (rule p)
  with t have 1: "case m s of (Inr x, s') \<Rightarrow> Q' x s' | (Inl e, s') \<Rightarrow> E' e s'"
    by (simp add: triple_def)
  show "case m s of (Inr x, s') \<Rightarrow> Q x s' | (Inl e, s') \<Rightarrow> E e s'"
  proof (cases "m s")
    case (Pair r s')
    with 1 show ?thesis by (cases r) (simp_all add: q e)
  qed
qed

lemma triple_post_weaken:
  assumes "triple P m Q' E'" and "\<And>x s. Q' x s \<Longrightarrow> Q x s" and "\<And>e s. E' e s \<Longrightarrow> E e s"
  shows "triple P m Q E"
  using assms(1) by (rule triple_weaken) (simp_all add: assms)

lemma triple_bnd_weak:
  assumes "triple P m R E'" and "\<And>e s. E' e s \<Longrightarrow> E e s" and "\<And>x. triple (R x) (k x) Q E"
  shows "triple P (bnd m k) Q E"
  by (rule triple_bnd [OF triple_post_weaken [OF assms(1)] assms(3)]) (simp_all add: assms(2))

lemma triple_pre_const: "(C \<Longrightarrow> triple P m Q E) \<Longrightarrow> triple (\<lambda>s. C \<and> P s) m Q E"
  by (cases C) (simp_all add: triple_def)

lemma triple_false: "triple (\<lambda>_. False) m Q E"
  by (simp add: triple_def)

lemma triple_snd:
  assumes "triple P m (\<lambda>_. I) (\<lambda>_. I)" and "P s"
  shows "I (snd (m s))"
proof (cases "m s")
  case (Pair r s')
  with assms show ?thesis by (cases r) (auto simp add: triple_def)
qed

lemma triple_noraise:
  assumes "triple P m Q (\<lambda>_ _. False)" and "P s"
  obtains x s' where "m s = (Inr x, s')" and "Q x s'"
proof (cases "m s")
  case (Pair r s')
  from assms have 1: "case m s of (Inr x, s') \<Rightarrow> Q x s' | (Inl e, s') \<Rightarrow> False"
    by (simp add: triple_def)
  show ?thesis
  proof (cases r)
    case (Inl e)
    with Pair 1 have False by simp
    then show ?thesis ..
  next
    case (Inr x)
    with Pair 1 have "Q x s'" by simp
    with Pair Inr that show ?thesis by simp
  qed
qed

lemma triple_issue:
  assumes stable: "\<And>d f fs. P d \<Longrightarrow> faults d = f # fs \<Longrightarrow> P (d\<lparr>faults := fs\<rparr>)"
    and run: "triple P run Q E"
    and exc: "\<And>d f fs e. P d \<Longrightarrow> faults d = f # fs \<Longrightarrow> f c = Some e \<Longrightarrow> E e (d\<lparr>faults := fs\<rparr>)"
  shows "triple P (issue c run) Q E"
  unfolding triple_def
proof (intro allI impI)
  fix d assume P: "P d"
  show "case issue c run d of (Inr x, s') \<Rightarrow> Q x s' | (Inl e, s') \<Rightarrow> E e s'"
  proof (cases "faults d")
    case Nil
    with run P show ?thesis by (simp add: issue_def triple_def)
  next
    case (Cons f fs)
    show ?thesis
    proof (cases "f c")
      case None
      from stable [OF P Cons] run
      have "case run (d\<lparr>faults := fs\<rparr>) of (Inr x, s') \<Rightarrow> Q x s' | (Inl e, s') \<Rightarrow> E e s'"
        by (simp add: triple_def)
      with Cons None show ?thesis by (simp add: issue_def)
    next
      case (Some e)
      with exc [OF P Cons Some] Cons show ?thesis by (simp add: issue_def)
    qed
  qed
qed

lemma triple_on_window:
  assumes "\<And>t. triple (\<lambda>d. P d \<and> map_of (windows d) (current d) = Some t) (k t) Q E"
    and "\<And>d. P d \<Longrightarrow> map_of (windows d) (current d) = None \<Longrightarrow> E NoSuchWindowException d"
  shows "triple P (on_window k) Q E"
  unfolding triple_def
proof (intro allI impI)
  fix d assume P: "P d"
  show "case on_window k d of (Inr x, s') \<Rightarrow> Q x s' | (Inl e, s') \<Rightarrow> E e s'"
  proof (cases "map_of (windows d) (current d)")
    case None
    with assms(2) [OF P] show ?thesis by (simp add: on_window_def)
  next
    case (Some t)
    with assms(1) [of t] P show ?thesis by (simp add: on_window_def triple_def)
  qed
qed

section \<open>Facts about the driver and the helpers\<close>

lemma same_driver: "driver s = Some d \<Longrightarrow> s\<lparr>driver := Some d\<rparr> = s"
  by (cases s) simp

lemma issue_no_fault: "faults d = [] \<Longrightarrow> issue c run d = run d"
  by (simp add: issue_def)

lemma on_driver_Some:
  "driver s = Some d \<Longrightarrow> on_driver p s = (fst (p d), s\<lparr>driver := Some (snd (p d))\<rparr>)"
  by (simp add: on_driver_def split: prod.splits)

lemma window_handles_no_fault:
  "faults d = [] \<Longrightarrow> driver_window_handles d = (Inr (map fst (windows d)), d)"
  by (simp add: driver_window_handles_def issue_no_fault)

lemma current_window_handle_no_fault:
  "faults d = [] \<Longrightarrow> map_of (windows d) (current d) = Some t \<Longrightarrow>
   driver_current_window_handle d = (Inr (current d), d)"
  by (simp add: driver_current_window_handle_def issue_no_fault on_window_def)

lemma title_no_fault:
  "faults d = [] \<Longrightarrow> map_of (windows d) (current d) = Some t \<Longrightarrow>
   driver_title d = (Inr (tab_title t), d)"
  by (simp add: driver_title_def issue_no_fault on_window_def ret_def)

lemma current_url_no_fault:
  "faults d = [] \<Longrightarrow> map_of (windows d) (current d) = Some t \<Longrightarrow>
   driver_current_url d = (Inr (tab_url t), d)"
  by (simp add: driver_current_url_def issue_no_fault on_window_def ret_def)

lemma never_refuses_stable:
  "never_refuses c d \<Longrightarrow> faults d = f # fs \<Longrightarrow> never_refuses c (d\<lparr>faults := fs\<rparr>)"
  by (simp add: never_refuses_def)

lemma run_script_frame:
  "window_size (snd (run_script js t d)) = window_size d
   \<and> faults (snd (run_script js t d)) = faults d
   \<and> current (snd (run_script js t d)) = current d"
  by (simp add: run_script_def set_tab_def split: list.splits)

lemma until_keeps:
  assumes "triple I method (\<lambda>_. I) (\<lambda>_. I)"
  shows "triple I (until n method) (\<lambda>_. I) (\<lambda>_. I)"
proof (induction n)
  case 0
  show ?case
    unfolding triple_def
  proof (intro allI impI)
    fix d assume "I d"
    with assms have "I (snd (method d))" by (rule triple_snd)
    then show "case until 0 method d of (Inr x, s') \<Rightarrow> I s' | (Inl e, s') \<Rightarrow> I s'"
      by (cases "method d") (auto split: sum.splits)
  qed
next
  case (Suc n)
  show ?case
    unfolding triple_def
  proof (intro allI impI)
    fix d assume "I d"
    with assms have 1: "I (snd (method d))" by (rule triple_snd)
    have 2: "I (snd (until n method (snd (method d))))"
      by (rule triple_snd [OF Suc.IH 1])
    have 3: "I (snd (until (Suc n) method d))"
      using 1 2 by (cases "method d") (auto split: sum.splits)
    then show "case until (Suc n) method d of (Inr x, s') \<Rightarrow> I s' | (Inl e, s') \<Rightarrow> I s'"
      by (cases "until (Suc n) method d") (auto split: sum.splits)
  qed
qed

lemma wait_never_raises: "fst (wait_for_page_load timeout d) = Inr ()"
  by (simp add: wait_for_page_load_def try_except_def ret_def split: prod.splits sum.splits)

subsection \<open>The window size\<close>

lemma size_kept_stable: "size_kept W d \<Longrightarrow> faults d = f # fs \<Longrightarrow> size_kept W (d\<lparr>faults := fs\<rparr>)"
  by (simp add: size_kept_def never_refuses_def)

lemma size_kept_capture:
  "triple (size_kept W) driver_get_screenshot_as_png (\<lambda>_. size_kept W) (\<lambda>_. size_kept W)"
  unfolding driver_get_screenshot_as_png_def
  by (intro triple_issue triple_on_window) (simp_all add: size_kept_stable triple_def)

lemma size_kept_execute_script:
  "triple (size_kept W) (driver_execute_script js) (\<lambda>_. size_kept W) (\<lambda>_. size_kept W)"
  unfolding driver_execute_script_def
  by (intro triple_issue triple_on_window)
     (simp_all add: size_kept_stable triple_def, simp add: size_kept_def never_refuses_def run_script_frame)

lemma size_kept_get_window_size:
  "triple (size_kept W) driver_get_window_size (\<lambda>x d. x = W \<and> size_kept W d) (\<lambda>_. size_kept W)"
  unfolding driver_get_window_size_def
  by (intro triple_issue) (simp_all add: size_kept_stable triple_def, simp add: size_kept_def)

lemma size_kept_page_size:
  "triple (size_kept W) (page_size a b) (\<lambda>_. size_kept W) (\<lambda>_. size_kept W)"
  by (auto simp add: triple_def page_size_def as_int_def bnd_def ret_def raise_def
      split: js_value.splits)

lemma resize_other:
  "triple (never_refuses c) (driver_set_window_size w h)
     (\<lambda>_. never_refuses c) (\<lambda>_. never_refuses c)"
  unfolding driver_set_window_size_def
  by (intro triple_issue) (simp_all add: never_refuses_stable triple_def, simp add: never_refuses_def)

lemma capture_other:
  "triple (never_refuses c) driver_get_screenshot_as_png
     (\<lambda>_. never_refuses c) (\<lambda>_. never_refuses c)"
  unfolding driver_get_screenshot_as_png_def
  by (intro triple_issue triple_on_window) (simp_all add: never_refuses_stable triple_def)

lemma resize_back:
  "triple (never_refuses (Set_window_size (fst W) (snd W)))
     (driver_set_window_size (fst W) (snd W))
     (\<lambda>_. size_kept W) (\<lambda>_ _. False)"
  unfolding driver_set_window_size_def
  by (intro triple_issue)
     (simp_all add: never_refuses_stable triple_def, simp_all add: size_kept_def never_refuses_def)

lemma size_kept_resize_and_capture:
  "triple (size_kept W) (resize_and_capture total_size W backup)
     (\<lambda>_. size_kept W) (\<lambda>_. size_kept W)"
  unfolding resize_and_capture_def
  apply (rule triple_try [where R = "\<lambda>_. never_refuses (Set_window_size (fst W) (snd W))"])
   apply (rule triple_bnd [where R = "\<lambda>_. never_refuses (Set_window_size (fst W) (snd W))"])
    apply (rule triple_weaken [OF resize_other])
      apply (simp_all add: size_kept_def) [3]
   apply (rule triple_bnd [where R = "\<lambda>_. never_refuses (Set_window_size (fst W) (snd W))"])
    apply (rule capture_other)
   apply (rule triple_bnd [where R = "\<lambda>_. size_kept W"])
    apply (rule triple_weaken [OF resize_back])
      apply simp_all [3]
   apply (rule triple_ret)
   apply simp
  apply (rule triple_bnd [where R = "\<lambda>_. size_kept W"])
   apply (rule triple_try [where R = "\<lambda>_ _. False"])
    apply (rule triple_weaken [OF resize_back])
      apply simp_all [3]
   apply (rule triple_false)
  apply (rule triple_ret)
  apply simp
  done

lemma size_kept_resize_and_capture_eq:
  "triple (\<lambda>d. x = W \<and> size_kept W d) (resize_and_capture total_size x backup)
     (\<lambda>_. size_kept W) (\<lambda>_. size_kept W)"
proof (cases "x = W")
  case True
  then show ?thesis using size_kept_resize_and_capture [of W total_size backup] by simp
next
  case False
  then show ?thesis by (simp add: triple_def)
qed

lemma size_kept_full_page:
  "triple (size_kept W) take_full_page_screenshot_safely (\<lambda>_. size_kept W) (\<lambda>_. size_kept W)"
  unfolding take_full_page_screenshot_safely_def
  apply (rule triple_try [where R = "\<lambda>_. size_kept W"])
   apply (rule triple_bnd [OF size_kept_capture])
   apply (rule triple_try [where R = "\<lambda>_. size_kept W"])
    apply (rule triple_bnd [OF size_kept_execute_script])
    apply (rule triple_bnd [OF size_kept_execute_script])
    apply (rule triple_bnd [OF size_kept_page_size])
    apply (rule triple_bnd [OF size_kept_execute_script])
    apply (rule triple_bnd [OF size_kept_execute_script])
    apply (rule triple_bnd [OF size_kept_get_window_size])
    apply (rule size_kept_resize_and_capture_eq)
   apply (rule triple_ret, simp)
  apply (rule triple_try [where R = "\<lambda>_. size_kept W"])
   apply (rule size_kept_capture)
  apply (rule triple_raise, simp)
  done

subsection \<open>The page in the current window\<close>

lemma map_of_set_tab:
  "map_of ws c = Some t \<Longrightarrow>
   map_of (map (\<lambda>(h, t'). if h = c then (h, t1) else (h, t')) ws) c = Some t1"
  by (induction ws) (auto split: if_splits)

lemma same_view_set_tab:
  assumes "map_of (windows d) (current d) = Some t'"
    and "tab_title t1 = tab_title t" and "tab_url t1 = tab_url t" and "pixels t1 = pixels t"
  shows "same_view t (set_tab t1 d)"
  using assms map_of_set_tab [of "windows d" "current d" t' t1]
  by (simp add: same_view_def set_tab_def)

lemma same_view_run_script:
  assumes "map_of (windows d) (current d) = Some t'"
    and "tab_title t' = tab_title t" and "tab_url t' = tab_url t" and "pixels t' = pixels t"
  shows "same_view t (snd (run_script js t' d))"
proof -
  have d: "same_view t d"
    using assms by (auto simp add: same_view_def)
  have 1: "same_view t (set_tab (t'\<lparr>loading := loading t' - 1\<rparr>) d)"
    using assms by (intro same_view_set_tab [of d t']) simp_all
  have 2: "same_view t (set_tab (t'\<lparr>images_loading := images_loading t' - 1\<rparr>) d)"
    using assms by (intro same_view_set_tab [of d t']) simp_all
  have 3: "same_view t (d\<lparr>windows := windows d @ [(h, blank_tab d)], unused_handles := hs\<rparr>)" for h hs
    using assms by (auto simp add: same_view_def map_add_def)
  show ?thesis
    using d 1 2 3 by (simp add: run_script_def split: list.splits)
qed

lemma same_view_stable:
  "same_view t d \<Longrightarrow> same_view t (d\<lparr>faults := fs\<rparr>)"
  by (simp add: same_view_def)

lemma same_view_resized:
  "same_view t d \<Longrightarrow> same_view t (d\<lparr>window_size := W\<rparr>)"
  by (simp add: same_view_def)

lemma same_view_execute_script:
  "triple (same_view t) (driver_execute_script js) (\<lambda>_. same_view t) (\<lambda>_. same_view t)"
  unfolding driver_execute_script_def
proof (intro triple_issue triple_on_window)
  fix t' 
  show "triple (\<lambda>d. same_view t d \<and> map_of (windows d) (current d) = Some t')
          (\<lambda>d. (Inr (fst (run_script js t' d)), snd (run_script js t' d)))
          (\<lambda>_. same_view t) (\<lambda>_. same_view t)"
    by (auto simp add: triple_def same_view_def intro!: same_view_run_script [unfolded same_view_def])
qed (simp_all add: same_view_stable)

lemma same_view_capture:
  "triple (same_view t) driver_get_screenshot_as_png
     (\<lambda>x d. x = pixels t (window_size d) \<and> same_view t d) (\<lambda>_. same_view t)"
  unfolding driver_get_screenshot_as_png_def
  by (intro triple_issue triple_on_window)
     (auto simp add: same_view_stable triple_def same_view_def)

lemma same_view_get_window_size:
  "triple (same_view t) driver_get_window_size (\<lambda>_. same_view t) (\<lambda>_. same_view t)"
  unfolding driver_get_window_size_def
  by (intro triple_issue) (auto simp add: same_view_stable triple_def)

lemma same_view_set_window_size:
  "triple (same_view t) (driver_set_window_size w h) (\<lambda>_. same_view t) (\<lambda>_. same_view t)"
  unfolding driver_set_window_size_def
  by (intro triple_issue) (auto simp add: same_view_stable same_view_resized triple_def)

lemma same_view_page_size:
  "triple (same_view t) (page_size a b) (\<lambda>_. same_view t) (\<lambda>_. same_view t)"
  by (auto simp add: triple_def page_size_def as_int_def bnd_def ret_def raise_def
      split: js_value.splits)

lemma resize_and_capture_returns:
  "triple (same_view t) (resize_and_capture total_size original_size (pixels t sz))
     (\<lambda>x _. x \<in> range (pixels t)) (\<lambda>_ _. False)"
  unfolding resize_and_capture_def
  apply (rule triple_try [where R = "\<lambda>_. same_view t"])
   apply (rule triple_bnd [OF same_view_set_window_size])
   apply (rule triple_bnd [where R = "\<lambda>x d. x \<in> range (pixels t) \<and> same_view t d"])
    apply (rule triple_post_weaken [OF same_view_capture])
     apply simp
    apply simp
   apply (rule triple_pre_const)
   apply (rule triple_bnd [where R = "\<lambda>_ _. True"])
    apply (rule triple_post_weaken [OF same_view_set_window_size])
     apply simp
    apply simp
   apply (rule triple_ret)
   apply simp
  apply (rule triple_bnd [where R = "\<lambda>_ _. True"])
   apply (rule triple_try [where R = "\<lambda>_ _. True"])
    apply (rule triple_post_weaken [OF same_view_set_window_size])
     apply simp
    apply simp
   apply (rule triple_ret)
   apply simp
  apply (rule triple_ret)
  apply simp
  done

lemma capture_answered:
  "triple (\<lambda>d. same_view t d \<and> answers Get_screenshot_as_png d) driver_get_screenshot_as_png
     (\<lambda>x d. x \<in> range (pixels t) \<and> same_view t d) (\<lambda>_ _. False)"
  unfolding driver_get_screenshot_as_png_def
  apply (rule triple_weaken [where P' = "\<lambda>d. same_view t d \<and> answers Get_screenshot_as_png d"
        and Q' = "\<lambda>x d. x \<in> range (pixels t) \<and> same_view t d" and E' = "\<lambda>_ _. False"])
     apply (auto simp add: triple_def issue_def on_window_def answers_def same_view_def
      split: list.splits option.splits)
  done

lemma geometry_fallback:
  assumes "b \<in> range (pixels t)"
  shows "triple (same_view t)
     (try_except
        (bnd (driver_execute_script scroll_width_script) (\<lambda>total_width.
         bnd (driver_execute_script scroll_height_script) (\<lambda>total_height.
         bnd (page_size total_width total_height) (\<lambda>total_size.
         bnd (driver_execute_script inner_width_script) (\<lambda>current_width.
         bnd (driver_execute_script inner_height_script) (\<lambda>current_height.
         bnd driver_get_window_size (\<lambda>original_size.
         resize_and_capture total_size original_size b)))))))
        (\<lambda>e. ret b))
     (\<lambda>x _. x \<in> range (pixels t)) (\<lambda>_ _. False)"
proof -
  from assms obtain sz where b: "b = pixels t sz" by auto
  have tail: "triple (same_view t) (resize_and_capture total_size original_size b)
      (\<lambda>x _. x \<in> range (pixels t)) (\<lambda>_ _. True)" for total_size original_size
    unfolding b by (rule triple_post_weaken [OF resize_and_capture_returns]) simp_all
  show ?thesis
    apply (rule triple_try [where R = "\<lambda>_ _. True"])
     apply (rule triple_bnd_weak [OF same_view_execute_script], simp)
     apply (rule triple_bnd_weak [OF same_view_execute_script], simp)
     apply (rule triple_bnd_weak [OF same_view_page_size], simp)
     apply (rule triple_bnd_weak [OF same_view_execute_script], simp)
     apply (rule triple_bnd_weak [OF same_view_execute_script], simp)
     apply (rule triple_bnd_weak [OF same_view_get_window_size], simp)
     apply (rule tail)
    apply (rule triple_ret)
    apply (rule assms)
    done
qed

lemma full_page_falls_back:
  "triple (\<lambda>d. same_view t d \<and> answers Get_screenshot_as_png d) take_full_page_screenshot_safely
     (\<lambda>x _. x \<in> range (pixels t)) (\<lambda>_ _. False)"
  unfolding take_full_page_screenshot_safely_def
  apply (rule triple_try [where R = "\<lambda>_ _. False"])
   apply (rule triple_bnd [OF capture_answered])
   apply (rule triple_pre_const)
   apply (erule geometry_fallback)
  apply (rule triple_false)
  done

subsection \<open>A driver that answers\<close>

lemma calm_stable: "calm C t W d \<Longrightarrow> faults d = f # fs \<Longrightarrow> calm C t W (d\<lparr>faults := fs\<rparr>)"
  by (simp add: calm_def never_refuses_def same_view_stable)

lemma calm_execute_script:
  "triple (calm C t W) (driver_execute_script js) (\<lambda>_. calm C t W) (\<lambda>_. calm C t W)"
  unfolding driver_execute_script_def
proof (intro triple_issue triple_on_window)
  fix t'
  show "triple (\<lambda>d. calm C t W d \<and> map_of (windows d) (current d) = Some t')
          (\<lambda>d. (Inr (fst (run_script js t' d)), snd (run_script js t' d)))
          (\<lambda>_. calm C t W) (\<lambda>_. calm C t W)"
    unfolding triple_def
  proof (intro allI impI)
    fix d assume a: "calm C t W d \<and> map_of (windows d) (current d) = Some t'"
    then have "same_view t (snd (run_script js t' d))"
      by (intro same_view_run_script) (auto simp add: calm_def same_view_def)
    with a have "calm C t W (snd (run_script js t' d))"
      by (simp add: calm_def never_refuses_def run_script_frame)
    then show "case (Inr (fst (run_script js t' d)), snd (run_script js t' d)) of
        (Inr x, s') \<Rightarrow> calm C t W s' | (Inl e, s') \<Rightarrow> calm C t W s'" by simp
  qed
qed (simp_all add: calm_stable)

lemma calm_ready: "triple (calm C t W) ready_state_is_complete (\<lambda>_. calm C t W) (\<lambda>_. calm C t W)"
  unfolding ready_state_is_complete_def
  by (rule triple_bnd [OF calm_execute_script]) (rule triple_ret, simp)

lemma calm_wait_safely:
  "triple (calm C t W) (wait_for_page_load_safely timeout) (\<lambda>_. calm C t W) (\<lambda>_ _. False)"
  unfolding wait_for_page_load_safely_def
  apply (rule triple_try [OF until_keeps [OF calm_ready]])
  apply (simp add: triple_def ret_def)
  done

subsection \<open>The handlers\<close>


text \<open>
  When \<open>list_tabs\<close> returns, the window that was current is current again: the
  last command of its \<^verbatim>\<open>try\<close> switched back to it.
\<close>

lemma current_window_handle_result:
  "driver_current_window_handle d = (Inr h, d') \<Longrightarrow> h = current d"
  by (auto simp add: driver_current_window_handle_def issue_def on_window_def
      split: list.splits option.splits)

lemma switch_to_window_result:
  "driver_switch_to_window h d = (Inr x, d') \<Longrightarrow> current d' = h"
  by (auto simp add: driver_switch_to_window_def issue_def
      split: list.splits option.splits if_splits)

lemma list_tabs_success_keeps_current:
  assumes "driver s = Some d" and "list_tabs s = (Inr r, s')"
  shows "map_option current (driver s') = Some (current d)"
  using assms
  by (auto simp add: list_tabs_def try_except_def bnd_def on_driver_def raise_def ret_def
      split: prod.splits sum.splits
      dest!: current_window_handle_result switch_to_window_result)

text \<open>The definitions a concrete run unfolds.\<close>

lemmas driver_defs = driver_get_def driver_title_def driver_current_url_def driver_window_handles_def
  driver_current_window_handle_def driver_switch_to_window_def driver_close_def
  driver_get_screenshot_as_png_def driver_get_window_size_def driver_set_window_size_def
  driver_execute_script_def issue_def on_window_def set_tab_def run_script_def

lemmas script_defs = ready_state_script_def images_complete_script_def scroll_width_script_def
  scroll_height_script_def inner_width_script_def inner_height_script_def window_open_script_def

lemmas prog_defs = ret_def raise_def bnd_def try_except_def on_driver_def

lemmas example_defs = page_def two_tabs_def one_tab_def running_def stopped_def answered_def
  refused_def refusing_def

subsection \<open>The tiers of the screenshot handler\<close>

lemma skip_fault_nil: "faults d = [] \<Longrightarrow> skip_fault d = d"
  by (simp add: skip_fault_def)

lemma issue_answered: "answers c d \<Longrightarrow> issue c run d = run (skip_fault d)"
proof (cases "faults d")
  case Nil
  then show ?thesis by (simp add: issue_def skip_fault_nil)
next
  case (Cons f fs)
  assume "answers c d"
  with Cons show ?thesis by (simp add: answers_def issue_def skip_fault_def)
qed

lemma issue_refused: "\<not> answers c d \<Longrightarrow> \<exists>e. issue c run d = (Inl e, skip_fault d)"
  by (auto simp add: answers_def issue_def skip_fault_def split: list.splits)

lemma calm_skip_fault: "calm C t W d \<Longrightarrow> calm C t W (skip_fault d)"
proof (cases "faults d")
  case Nil
  assume "calm C t W d"
  with Nil show ?thesis by (simp add: skip_fault_nil)
next
  case (Cons f fs)
  assume "calm C t W d"
  with Cons show ?thesis by (simp add: skip_fault_def calm_stable)
qed

lemma skip_fault_window [simp]:
  "windows (skip_fault d) = windows d" "current (skip_fault d) = current d"
  "window_size (skip_fault d) = window_size d"
  by (simp_all add: skip_fault_def)

lemma capture_when_answered:
  assumes "calm C t W d" and "answers Get_screenshot_as_png d"
  shows "driver_get_screenshot_as_png d = (Inr (pixels t W), skip_fault d)"
  using assms
  by (auto simp add: driver_get_screenshot_as_png_def issue_answered on_window_def calm_def
      same_view_def)

lemma capture_when_refused:
  "\<not> answers Get_screenshot_as_png d \<Longrightarrow>
   \<exists>e. driver_get_screenshot_as_png d = (Inl e, skip_fault d)"
  unfolding driver_get_screenshot_as_png_def by (rule issue_refused)

lemma current_url_when_answered:
  assumes "map_of (windows d) (current d) = Some t" and "answers Get_current_url d"
  shows "driver_current_url d = (Inr (tab_url t), skip_fault d)"
  using assms by (simp add: driver_current_url_def issue_answered on_window_def ret_def)

lemma title_when_answered:
  assumes "map_of (windows d) (current d) = Some t" and "answers Get_title d"
  shows "driver_title d = (Inr (tab_title t), skip_fault d)"
  using assms by (simp add: driver_title_def issue_answered on_window_def ret_def)

lemma current_url_when_refused:
  "\<not> answers Get_current_url d \<Longrightarrow> \<exists>e. driver_current_url d = (Inl e, skip_fault d)"
  unfolding driver_current_url_def by (rule issue_refused)

lemma full_page_when_refused:
  assumes "\<not> answers Get_screenshot_as_png d"
  shows "take_full_page_screenshot_safely d =
     try_except driver_get_screenshot_as_png
       (\<lambda>final_error. raise capture_failed) (skip_fault d)"
proof -
  from capture_when_refused [OF assms]
  obtain e where "driver_get_screenshot_as_png d = (Inl e, skip_fault d)" ..
  then show ?thesis
    by (simp add: take_full_page_screenshot_safely_def try_except_def bnd_def capture_failed_def)
qed

lemma save_image_unwritable:
  "\<not> fs_writable s \<Longrightarrow> \<exists>s'. save_image b s = (Inl OSError, s')"
  by (simp add: save_image_def bnd_def ret_def os_path_exists_temp_def
      os_makedirs_temp_def uuid4_def write_file_def)

lemma save_image_when_writable:
  "fs_writable s \<Longrightarrow> \<exists>r s'. save_image b s = (Inr r, s') \<and> files s' (path r) = Some b"
  by (simp add: save_image_def bnd_def ret_def os_path_exists_temp_def
      os_makedirs_temp_def uuid4_def write_file_def)

lemma capture_stage:
  assumes c: "calm {} t W d1" and s: "driver s1 = Some d1"
  shows "(\<not> answers Get_screenshot_as_png d1
          \<and> \<not> answers Get_screenshot_as_png (skip_fault d1)
          \<and> \<not> answers Get_screenshot_as_png (skip_fault (skip_fault d1))
          \<and> (\<exists>d'. try_except (on_driver driver_get_screenshot_as_png)
                 (\<lambda>e. on_driver take_full_page_screenshot_safely) s1 =
               (Inl capture_failed, s1\<lparr>driver := Some d'\<rparr>)))
       \<or> ((answers Get_screenshot_as_png d1
          \<or> answers Get_screenshot_as_png (skip_fault d1)
          \<or> answers Get_screenshot_as_png (skip_fault (skip_fault d1)))
          \<and> (\<exists>b d'. try_except (on_driver driver_get_screenshot_as_png)
                 (\<lambda>e. on_driver take_full_page_screenshot_safely) s1 =
               (Inr b, s1\<lparr>driver := Some d'\<rparr>)
               \<and> b \<in> range (pixels t)
               \<and> (answers Get_screenshot_as_png d1 \<longrightarrow> b = pixels t W)))"
proof (cases "answers Get_screenshot_as_png d1")
  case True
  from capture_when_answered [OF c True] s True show ?thesis
    by (auto simp add: try_except_def on_driver_def)
next
  case r1: False
  let ?d2 = "skip_fault d1"
  from capture_when_refused [OF r1]
  obtain e where e: "driver_get_screenshot_as_png d1 = (Inl e, ?d2)" ..
  have c2: "calm {} t W ?d2" using c by (rule calm_skip_fault)
  have stage: "try_except (on_driver driver_get_screenshot_as_png)
                 (\<lambda>e. on_driver take_full_page_screenshot_safely) s1 =
      on_driver take_full_page_screenshot_safely (s1\<lparr>driver := Some ?d2\<rparr>)"
    using e s by (simp add: try_except_def on_driver_def)
  show ?thesis
  proof (cases "answers Get_screenshot_as_png ?d2")
    case True
    have "same_view t ?d2 \<and> answers Get_screenshot_as_png ?d2"
      using c2 True by (simp add: calm_def)
    with full_page_falls_back [of t]
    obtain b d' where "take_full_page_screenshot_safely ?d2 = (Inr b, d')" and "b \<in> range (pixels t)"
      by (rule triple_noraise [where s = ?d2]) auto
    with stage r1 True show ?thesis
      by (auto simp add: on_driver_def)
  next
    case r2: False
    let ?d3 = "skip_fault ?d2"
    have c3: "calm {} t W ?d3" using c2 by (rule calm_skip_fault)
    note h = full_page_when_refused [OF r2]
    show ?thesis
    proof (cases "answers Get_screenshot_as_png ?d3")
      case True
      from capture_when_answered [OF c3 True] h
      have "take_full_page_screenshot_safely ?d2 = (Inr (pixels t W), skip_fault ?d3)"
        by (simp add: try_except_def)
      with stage r1 r2 True show ?thesis
        by (auto simp add: on_driver_def)
    next
      case r3: False
      from capture_when_refused [OF r3]
      obtain e' where "driver_get_screenshot_as_png ?d3 = (Inl e', skip_fault ?d3)" ..
      with h have "take_full_page_screenshot_safely ?d2 = (Inl capture_failed, skip_fault ?d3)"
        by (simp add: try_except_def raise_def)
      with stage r1 r2 r3 show ?thesis
        by (auto simp add: on_driver_def)
    qed
  qed
qed

lemma take_screenshot_outcome:
  assumes s: "driver s = Some d" and t: "map_of (windows d) (current d) = Some t"
  shows "(\<not> answers Get_current_url d
          \<and> fst (take_screenshot s) = Inl (HTTPException 500 (Lit Browser_connection_failed)))
     \<or> (answers Get_current_url d
          \<and> \<not> answers Get_screenshot_as_png (before_capture d)
          \<and> \<not> answers Get_screenshot_as_png (skip_fault (before_capture d))
          \<and> \<not> answers Get_screenshot_as_png (skip_fault (skip_fault (before_capture d)))
          \<and> fst (take_screenshot s) = Inl capture_failed)
     \<or> (answers Get_current_url d
          \<and> (answers Get_screenshot_as_png (before_capture d)
             \<or> answers Get_screenshot_as_png (skip_fault (before_capture d))
             \<or> answers Get_screenshot_as_png (skip_fault (skip_fault (before_capture d))))
          \<and> \<not> fs_writable s
          \<and> fst (take_screenshot s) = Inl (HTTPException 500 (Fmt Screenshot_failed OSError)))
     \<or> (answers Get_current_url d
          \<and> (answers Get_screenshot_as_png (before_capture d)
             \<or> answers Get_screenshot_as_png (skip_fault (before_capture d))
             \<or> answers Get_screenshot_as_png (skip_fault (skip_fault (before_capture d))))
          \<and> fs_writable s
          \<and> (\<exists>r s' b. take_screenshot s = (Inr r, s') \<and> files s' (path r) = Some b
                \<and> b \<in> range (pixels t)
                \<and> (answers Get_screenshot_as_png (before_capture d) \<longrightarrow>
                     b = pixels t (window_size d))))"
proof (cases "answers Get_current_url d")
  case False
  from current_url_when_refused [OF False]
  obtain e where "driver_current_url d = (Inl e, skip_fault d)" ..
  with s have "fst (take_screenshot s) = Inl (HTTPException 500 (Lit Browser_connection_failed))"
    by (simp add: take_screenshot_def try_except_def bnd_def on_driver_def raise_def
        is_HTTPException_def)
  with False show ?thesis by simp
next
  case True
  let ?W = "window_size d"
  let ?stage = "try_except (on_driver driver_get_screenshot_as_png)
      (\<lambda>e. on_driver take_full_page_screenshot_safely)"
  have cu: "driver_current_url d = (Inr (tab_url t), skip_fault d)"
    using t True by (rule current_url_when_answered)
  have "calm {} t ?W d" using t by (auto simp add: calm_def same_view_def)
  then have c0: "calm {} t ?W (skip_fault d)" by (rule calm_skip_fault)
  from calm_wait_safely [of "{}" t ?W 15] c0
  obtain x d1 where w: "wait_for_page_load_safely 15 (skip_fault d) = (Inr x, d1)"
    and c1: "calm {} t ?W d1"
    by (rule triple_noraise [where s = "skip_fault d"]) auto
  have d1: "before_capture d = d1" by (simp add: before_capture_def cu w)
  let ?s1 = "s\<lparr>driver := Some d1\<rparr>"
  have s1: "driver ?s1 = Some d1" by simp
  have head: "take_screenshot s =
      try_except (bnd ?stage (\<lambda>screenshot. save_image screenshot))
        (\<lambda>e. if is_HTTPException e then raise e
             else raise (HTTPException 500 (Fmt Screenshot_failed e))) ?s1"
    using s cu w by (simp add: take_screenshot_def try_except_def bnd_def on_driver_def)
  from capture_stage [OF c1 s1]
  show ?thesis
  proof (rule disjE)
    assume "\<not> answers Get_screenshot_as_png d1
          \<and> \<not> answers Get_screenshot_as_png (skip_fault d1)
          \<and> \<not> answers Get_screenshot_as_png (skip_fault (skip_fault d1))
          \<and> (\<exists>d'. ?stage ?s1 = (Inl capture_failed, ?s1\<lparr>driver := Some d'\<rparr>))"
    then obtain d' where r: "\<not> answers Get_screenshot_as_png d1"
      "\<not> answers Get_screenshot_as_png (skip_fault d1)"
      "\<not> answers Get_screenshot_as_png (skip_fault (skip_fault d1))"
      and st: "?stage ?s1 = (Inl capture_failed, ?s1\<lparr>driver := Some d'\<rparr>)"
      by blast
    from head st have "fst (take_screenshot s) = Inl capture_failed"
      by (simp add: try_except_def bnd_def raise_def is_HTTPException_def capture_failed_def)
    with True r d1 show ?thesis by simp
  next
    assume "(answers Get_screenshot_as_png d1
          \<or> answers Get_screenshot_as_png (skip_fault d1)
          \<or> answers Get_screenshot_as_png (skip_fault (skip_fault d1)))
          \<and> (\<exists>b d'. ?stage ?s1 = (Inr b, ?s1\<lparr>driver := Some d'\<rparr>)
               \<and> b \<in> range (pixels t)
               \<and> (answers Get_screenshot_as_png d1 \<longrightarrow> b = pixels t ?W))"
    then obtain b d' where a: "answers Get_screenshot_as_png d1 \<or> answers Get_screenshot_as_png (skip_fault d1)
        \<or> answers Get_screenshot_as_png (skip_fault (skip_fault d1))"
      and st: "?stage ?s1 = (Inr b, ?s1\<lparr>driver := Some d'\<rparr>)"
      and b: "b \<in> range (pixels t)"
      and v: "answers Get_screenshot_as_png d1 \<longrightarrow> b = pixels t ?W"
      by blast
    let ?s2 = "?s1\<lparr>driver := Some d'\<rparr>"
    show ?thesis
    proof (cases "fs_writable s")
      case False
      then have "\<not> fs_writable ?s2" by simp
      from save_image_unwritable [OF this]
      obtain s' where "save_image b ?s2 = (Inl OSError, s')" ..
      with head st have "fst (take_screenshot s) = Inl (HTTPException 500 (Fmt Screenshot_failed OSError))"
        by (simp add: try_except_def bnd_def raise_def is_HTTPException_def)
      with True a False d1 show ?thesis by simp
    next
      case w: True
      then have "fs_writable ?s2" by simp
      from save_image_when_writable [OF this]
      obtain r s' where "save_image b ?s2 = (Inr r, s')" and f: "files s' (path r) = Some b"
        by blast
      with head st have "take_screenshot s = (Inr r, s')"
        by (simp add: try_except_def bnd_def)
      with f b v have "\<exists>r s' b. take_screenshot s = (Inr r, s') \<and> files s' (path r) = Some b
                \<and> b \<in> range (pixels t)
                \<and> (answers Get_screenshot_as_png d1 \<longrightarrow> b = pixels t ?W)"
        by blast
      with True a w d1 show ?thesis by simp
    qed
  qed
qed

lemma before_capture_example:
  "before_capture first_capture_refused =
     two_tabs\<lparr>faults := [refusing Get_screenshot_as_png WebDriverException, answered,
                         refusing (Execute_script scroll_width_script) WebDriverException]\<rparr>"
  by (simp add: before_capture_def first_capture_refused_def wait_for_page_load_safely_def
      polls_def eval_nat_numeral ready_state_is_complete_def
      driver_defs script_defs prog_defs example_defs)

lemma take_screenshot_falls_back_example:
  "take_screenshot (running first_capture_refused) =
     (Inr \<lparr>path = ''temp/screenshot_7.png''\<rparr>,
      (running two_tabs)\<lparr>temp_exists := True,
         files := [''temp/screenshot_7.png'' \<mapsto> [137, 80, 78, 71, 2560, 1440]],
         uuids_drawn := 1\<rparr>)"
  by (simp add: first_capture_refused_def take_screenshot_def take_full_page_screenshot_safely_def
      save_image_def os_path_exists_temp_def os_makedirs_temp_def uuid4_def write_file_def
      wait_for_page_load_safely_def polls_def eval_nat_numeral ready_state_is_complete_def
      is_HTTPException_def driver_defs script_defs prog_defs example_defs)

subsection \<open>The page a navigation loads\<close>

lemma set_tab_set_tab: "set_tab x (set_tab y d) = set_tab x d"
  by (simp add: set_tab_def comp_def case_prod_beta)

lemma set_tab_shows:
  "map_of (windows d) (current d) = Some t0 \<Longrightarrow>
   map_of (windows (set_tab y d)) (current (set_tab y d)) = Some y"
  using map_of_set_tab [of "windows d" "current d" t0 y] by (simp add: set_tab_def)

lemma set_tab_faults: "faults (set_tab y d) = faults d"
  by (simp add: set_tab_def)

lemma execute_ready_on_page:
  assumes "faults d = []" and "map_of (windows d) (current d) = Some t0"
  shows "driver_execute_script ready_state_script (set_tab y d) =
     (Inr (JStr (if loading y = 0 then ''complete'' else ''loading'')),
      set_tab (y\<lparr>loading := loading y - 1\<rparr>) d)"
  using assms set_tab_shows [of d t0 y]
  by (simp add: driver_execute_script_def issue_no_fault set_tab_faults on_window_def
      run_script_def set_tab_set_tab)

lemma execute_images_on_page:
  assumes "faults d = []" and "map_of (windows d) (current d) = Some t0"
  shows "driver_execute_script images_complete_script (set_tab y d) =
     (Inr (JBool (images_loading y = 0)),
      set_tab (y\<lparr>images_loading := images_loading y - 1\<rparr>) d)"
proof -
  have ne: "images_complete_script \<noteq> ready_state_script"
    by (simp add: images_complete_script_def ready_state_script_def)
  show ?thesis
    using assms set_tab_shows [of d t0 y] ne
    by (simp add: driver_execute_script_def issue_no_fault set_tab_faults on_window_def
        run_script_def set_tab_set_tab)
qed

lemma loaded_ready:
  assumes "faults d = []" and "map_of (windows d) (current d) = Some t0"
  shows "triple (loaded d p) ready_state_is_complete (\<lambda>_. loaded d p) (\<lambda>_. loaded d p)"
  unfolding triple_def
proof (intro allI impI)
  fix d' assume "loaded d p d'"
  then obtain a b where d': "d' = set_tab (p\<lparr>loading := a, images_loading := b\<rparr>) d"
    by (auto simp add: loaded_def)
  let ?y = "p\<lparr>loading := a, images_loading := b\<rparr>"
  have eq: "?y\<lparr>loading := loading ?y - 1\<rparr> = p\<lparr>loading := a - 1, images_loading := b\<rparr>"
    by simp
  have "loaded d p (set_tab (?y\<lparr>loading := loading ?y - 1\<rparr>) d)"
    unfolding loaded_def eq by blast
  then show "case ready_state_is_complete d' of (Inr x, s') \<Rightarrow> loaded d p s'
      | (Inl e, s') \<Rightarrow> loaded d p s'"
    by (simp add: d' ready_state_is_complete_def bnd_def ret_def execute_ready_on_page [OF assms])
qed

lemma loaded_images:
  assumes "faults d = []" and "map_of (windows d) (current d) = Some t0"
  shows "triple (loaded d p) images_are_complete (\<lambda>_. loaded d p) (\<lambda>_. loaded d p)"
  unfolding triple_def
proof (intro allI impI)
  fix d' assume "loaded d p d'"
  then obtain a b where d': "d' = set_tab (p\<lparr>loading := a, images_loading := b\<rparr>) d"
    by (auto simp add: loaded_def)
  let ?y = "p\<lparr>loading := a, images_loading := b\<rparr>"
  have eq: "?y\<lparr>images_loading := images_loading ?y - 1\<rparr> = p\<lparr>loading := a, images_loading := b - 1\<rparr>"
    by simp
  have "loaded d p (set_tab (?y\<lparr>images_loading := images_loading ?y - 1\<rparr>) d)"
    unfolding loaded_def eq by blast
  then show "case images_are_complete d' of (Inr x, s') \<Rightarrow> loaded d p s'
      | (Inl e, s') \<Rightarrow> loaded d p s'"
    by (simp add: d' images_are_complete_def bnd_def ret_def execute_images_on_page [OF assms])
qed

lemma loaded_wait:
  assumes "faults d = []" and "map_of (windows d) (current d) = Some t0"
  shows "triple (loaded d p) (wait_for_page_load timeout) (\<lambda>_. loaded d p) (\<lambda>_ _. False)"
  unfolding wait_for_page_load_def
  apply (rule triple_try [where R = "\<lambda>_. loaded d p"])
   apply (rule triple_bnd [OF until_keeps [OF loaded_ready [OF assms]]])
   apply (rule until_keeps [OF loaded_images [OF assms]])
  apply (simp add: triple_def ret_def)
  done

lemma navigate_loads_page:
  assumes s: "driver s = Some d" and q: "faults d = []"
    and t: "map_of (windows d) (current d) = Some t0"
  shows "\<exists>a b. navigate_to_url \<lparr>URLRequest.url = u\<rparr> s =
           (Inr \<lparr>BasicResponse.title = Some (tab_title (web d (format_url u))),
                 url = Some (tab_url (web d (format_url u)))\<rparr>,
            s\<lparr>driver := Some (set_tab ((web d (format_url u))\<lparr>loading := a, images_loading := b\<rparr>) d)\<rparr>)"
proof -
  let ?p = "web d (format_url u)"
  have g: "driver_get (format_url u) d = (Inr (), set_tab ?p d)"
    using q t by (simp add: driver_get_def issue_def on_window_def)
  have "set_tab ?p d = set_tab (?p\<lparr>loading := loading ?p, images_loading := images_loading ?p\<rparr>) d"
    by simp
  then have l1: "loaded d ?p (set_tab ?p d)"
    unfolding loaded_def by blast
  from loaded_wait [OF q t, of ?p 30] l1
  obtain x d2 where w: "wait_for_page_load 30 (set_tab ?p d) = (Inr x, d2)" and l2: "loaded d ?p d2"
    by (rule triple_noraise [where s = "set_tab ?p d"]) auto
  from l2 obtain a b where d2: "d2 = set_tab (?p\<lparr>loading := a, images_loading := b\<rparr>) d"
    by (auto simp add: loaded_def)
  let ?y = "?p\<lparr>loading := a, images_loading := b\<rparr>"
  have f2: "faults d2 = []" using q by (simp add: d2 set_tab_faults)
  have m2: "map_of (windows d2) (current d2) = Some ?y"
    unfolding d2 using t by (rule set_tab_shows)
  have ti: "driver_title d2 = (Inr (tab_title ?p), d2)"
    using title_no_fault [OF f2 m2] by simp
  have cu: "driver_current_url d2 = (Inr (tab_url ?p), d2)"
    using current_url_no_fault [OF f2 m2] by simp
  have "navigate_to_url \<lparr>URLRequest.url = u\<rparr> s =
      (Inr \<lparr>BasicResponse.title = Some (tab_title ?p), url = Some (tab_url ?p)\<rparr>,
       s\<lparr>driver := Some d2\<rparr>)"
    using s g w ti cu
    by (simp add: navigate_to_url_def try_except_def bnd_def on_driver_def title_and_url_def ret_def)
  then show ?thesis unfolding d2 by blast
qed


lemma title_and_url_answered:
  assumes "driver s = Some d" and "map_of (windows d) (current d) = Some t"
    and "answers Get_title d" and "answers Get_current_url (skip_fault d)"
  shows "title_and_url s =
     (Inr \<lparr>BasicResponse.title = Some (tab_title t), url = Some (tab_url t)\<rparr>,
      s\<lparr>driver := Some (skip_fault (skip_fault d))\<rparr>)"
proof -
  have 1: "driver_title d = (Inr (tab_title t), skip_fault d)"
    using assms(2,3) by (rule title_when_answered)
  have "map_of (windows (skip_fault d)) (current (skip_fault d)) = Some t"
    using assms(2) by simp
  then have 2: "driver_current_url (skip_fault d) = (Inr (tab_url t), skip_fault (skip_fault d))"
    using assms(4) by (rule current_url_when_answered)
  from assms(1) 1 2 show ?thesis
    by (simp add: title_and_url_def bnd_def ret_def on_driver_def)
qed

lemma title_and_url_title_refused:
  assumes "driver s = Some d" and "faults d = g # gs" and "g Get_title = Some e"
  shows "title_and_url s = (Inl e, s\<lparr>driver := Some (d\<lparr>faults := gs\<rparr>)\<rparr>)"
proof -
  have "driver_title d = (Inl e, d\<lparr>faults := gs\<rparr>)"
    using assms by (simp add: driver_title_def issue_def)
  with assms(1) show ?thesis
    by (simp add: title_and_url_def bnd_def on_driver_def)
qed

section \<open>Claims about the handlers\<close>

text \<open>
  Claim C1 (switchTab with a handle that is not open fails with TabNotFound, passed
  through unchanged). The handler raises the 404 inside its own \<^verbatim>\<open>try\<close>, and its
  \<^verbatim>\<open>except Exception\<close> catches it: with a browser running, a driver that answers and a
  non-empty handle that is not open, \<open>switch_tab\<close> raises a 500 whose detail wraps the
  404, and changes nothing.
\<close>

theorem switch_tab_unknown_handle_is_wrapped:
  assumes "driver s = Some d" and "faults d = []"
    and "h \<noteq> []" and "h \<notin> set (map fst (windows d))"
  shows "switch_tab \<lparr>TabRequest.handle = Some h, url = u\<rparr> s =
           (Inl (HTTPException 500
                  (Fmt Switch_tab_failed (HTTPException 404 (Lit Tab_does_not_exist)))), s)"
  using assms
  by (simp add: switch_tab_def falsy_def try_except_def bnd_def raise_def
      on_driver_Some window_handles_no_fault same_driver)

text \<open>
  C1 at a concrete state: two windows A and B, the handle Z.
\<close>

theorem switch_tab_unknown_handle_is_wrapped_witness:
  "switch_tab \<lparr>TabRequest.handle = Some ''Z'', url = None\<rparr> (running two_tabs) =
     (Inl (HTTPException 500
            (Fmt Switch_tab_failed (HTTPException 404 (Lit Tab_does_not_exist)))),
      running two_tabs)"
  using switch_tab_unknown_handle_is_wrapped [of "running two_tabs" two_tabs "''Z''" None]
  by (simp add: running_def two_tabs_def)

text \<open>
  Claim C2 (closeTab on the only open tab fails with LastTabError and leaves the tabs
  as they are). The 400 is raised inside the \<^verbatim>\<open>try\<close> of the handler and caught by its
  \<^verbatim>\<open>except Exception\<close>: with one window open, which is the current one, and a driver
  that answers, \<open>close_tab\<close> for that window (named or not) raises a 500 whose detail
  wraps the 400; the windows are unchanged.
\<close>

theorem close_last_tab_is_wrapped:
  assumes "driver s = Some d" and "faults d = []"
    and "windows d = [(h, t)]" and "current d = h"
    and "TabRequest.handle request = None \<or> TabRequest.handle request = Some h"
  shows "close_tab request s =
           (Inl (HTTPException 500
                  (Fmt Close_tab_failed (HTTPException 400 (Lit Cannot_close_last_tab)))), s)
         \<and> map_option windows (driver (snd (close_tab request s))) = Some [(h, t)]"
  using assms
  by (auto simp add: close_tab_def falsy_def try_except_def bnd_def raise_def ret_def
      on_driver_Some window_handles_no_fault current_window_handle_no_fault same_driver)

text \<open>
  C2 at a concrete state: the single window A, no handle in the request.
\<close>

theorem close_last_tab_is_wrapped_witness:
  "close_tab \<lparr>TabRequest.handle = None, url = None\<rparr> (running one_tab) =
     (Inl (HTTPException 500
            (Fmt Close_tab_failed (HTTPException 400 (Lit Cannot_close_last_tab)))),
      running one_tab)
   \<and> map_option windows
        (driver (snd (close_tab \<lparr>TabRequest.handle = None, url = None\<rparr> (running one_tab)))) =
       Some [(''A'', page ''https://www.bing.com/'')]"
  using close_last_tab_is_wrapped [of "running one_tab" one_tab "''A''"
      "page ''https://www.bing.com/''" "\<lparr>TabRequest.handle = None, url = None\<rparr>"]
  by (simp add: running_def one_tab_def two_tabs_def)

text \<open>
  Claim C3, as stated, fails: the handler first probes \<^verbatim>\<open>driver.current_url\<close>, and when
  that raises it answers with a 500 (browser connection failed), although no capture was
  attempted and none would have been refused.
\<close>

theorem take_screenshot_probe_refused:
  "take_screenshot (running probe_refused) =
     (Inl (HTTPException 500 (Lit Browser_connection_failed)), running two_tabs)"
  by (simp add: probe_refused_def take_screenshot_def is_HTTPException_def driver_defs prog_defs example_defs)

text \<open>
  Claim C3, amended. With a browser running and its current window open, the screenshot
  handler has four outcomes, by what the driver answers: when the \<^verbatim>\<open>current_url\<close> probe
  is refused, the 500 of the failed connection; when the probe is answered and one of the
  three captures is answered (the capture of the handler, or after its refusal the backup
  capture of \<open>take_full_page_screenshot_safely\<close>, or after the refusal of both its last
  capture), a file that holds a capture of the current page, whatever the scripts, the
  resize and the capture in the resized window do, provided the file system accepts the
  write, and the 500 with the OSError otherwise; and the 500 of the completely failed
  screenshot exactly when the probe is answered and all three captures are refused.
  \<open>take_full_page_screenshot_safely\<close> itself returns a capture of the current page
  whenever its first capture is answered. The handler raises nothing but the three 500s
  of \<open>screenshot_errors\<close>.
\<close>

theorem take_screenshot_tiers:
  assumes "driver s = Some d" and "map_of (windows d) (current d) = Some t"
  shows "(\<not> answers Get_current_url d \<longrightarrow>
            fst (take_screenshot s) = Inl (HTTPException 500 (Lit Browser_connection_failed)))
     \<and> (answers Get_current_url d
          \<and> (answers Get_screenshot_as_png (before_capture d)
             \<or> answers Get_screenshot_as_png (skip_fault (before_capture d))
             \<or> answers Get_screenshot_as_png (skip_fault (skip_fault (before_capture d))))
          \<and> fs_writable s \<longrightarrow>
            (\<exists>r s' b. take_screenshot s = (Inr r, s') \<and> files s' (path r) = Some b
                \<and> b \<in> range (pixels t)
                \<and> (answers Get_screenshot_as_png (before_capture d) \<longrightarrow>
                     b = pixels t (window_size d))))
     \<and> (answers Get_current_url d
          \<and> (answers Get_screenshot_as_png (before_capture d)
             \<or> answers Get_screenshot_as_png (skip_fault (before_capture d))
             \<or> answers Get_screenshot_as_png (skip_fault (skip_fault (before_capture d))))
          \<and> \<not> fs_writable s \<longrightarrow>
            fst (take_screenshot s) = Inl (HTTPException 500 (Fmt Screenshot_failed OSError)))
     \<and> (fst (take_screenshot s) = Inl (HTTPException 500 (Lit Screenshot_completely_failed)) \<longleftrightarrow>
            answers Get_current_url d
            \<and> \<not> answers Get_screenshot_as_png (before_capture d)
            \<and> \<not> answers Get_screenshot_as_png (skip_fault (before_capture d))
            \<and> \<not> answers Get_screenshot_as_png (skip_fault (skip_fault (before_capture d))))
     \<and> (answers Get_screenshot_as_png d \<longrightarrow>
          (\<exists>b d'. take_full_page_screenshot_safely d = (Inr b, d') \<and> b \<in> range (pixels t)))
     \<and> (\<forall>e. fst (take_screenshot s) = Inl e \<longrightarrow> e \<in> screenshot_errors)"
proof -
  note o = take_screenshot_outcome [OF assms, unfolded capture_failed_def]
  have 1: "\<not> answers Get_current_url d \<longrightarrow>
            fst (take_screenshot s) = Inl (HTTPException 500 (Lit Browser_connection_failed))"
    using o by blast
  have 2: "answers Get_current_url d
          \<and> (answers Get_screenshot_as_png (before_capture d)
             \<or> answers Get_screenshot_as_png (skip_fault (before_capture d))
             \<or> answers Get_screenshot_as_png (skip_fault (skip_fault (before_capture d))))
          \<and> fs_writable s \<longrightarrow>
            (\<exists>r s' b. take_screenshot s = (Inr r, s') \<and> files s' (path r) = Some b
                \<and> b \<in> range (pixels t)
                \<and> (answers Get_screenshot_as_png (before_capture d) \<longrightarrow>
                     b = pixels t (window_size d)))"
    using o by blast
  have 3: "answers Get_current_url d
          \<and> (answers Get_screenshot_as_png (before_capture d)
             \<or> answers Get_screenshot_as_png (skip_fault (before_capture d))
             \<or> answers Get_screenshot_as_png (skip_fault (skip_fault (before_capture d))))
          \<and> \<not> fs_writable s \<longrightarrow>
            fst (take_screenshot s) = Inl (HTTPException 500 (Fmt Screenshot_failed OSError))"
    using o by blast
  have 4: "fst (take_screenshot s) = Inl (HTTPException 500 (Lit Screenshot_completely_failed)) \<longleftrightarrow>
            answers Get_current_url d
            \<and> \<not> answers Get_screenshot_as_png (before_capture d)
            \<and> \<not> answers Get_screenshot_as_png (skip_fault (before_capture d))
            \<and> \<not> answers Get_screenshot_as_png (skip_fault (skip_fault (before_capture d)))"
    using o by auto
  have 5: "answers Get_screenshot_as_png d \<longrightarrow>
          (\<exists>b d'. take_full_page_screenshot_safely d = (Inr b, d') \<and> b \<in> range (pixels t))"
  proof
    assume "answers Get_screenshot_as_png d"
    moreover have "same_view t d" using assms by (auto simp add: same_view_def)
    ultimately have "same_view t d \<and> answers Get_screenshot_as_png d" by simp
    with full_page_falls_back [of t]
    obtain b d' where "take_full_page_screenshot_safely d = (Inr b, d')" and "b \<in> range (pixels t)"
      by (rule triple_noraise [where s = d]) auto
    then show "\<exists>b d'. take_full_page_screenshot_safely d = (Inr b, d') \<and> b \<in> range (pixels t)"
      by blast
  qed
  have 6: "\<forall>e. fst (take_screenshot s) = Inl e \<longrightarrow> e \<in> screenshot_errors"
    using o by (auto simp add: screenshot_errors_def)
  from 1 2 3 4 5 6 show ?thesis by blast
qed

text \<open>
  C3 at a concrete state: the probe and the poll of the wait are answered, the capture
  of the handler is refused, the backup capture is answered and the script that reads the
  scroll width is refused: the handler answers with a file holding the backup capture
  (\<open>take_screenshot_falls_back_example\<close> is the run).
\<close>

theorem take_screenshot_tiers_witness:
  "answers Get_current_url first_capture_refused
   \<and> \<not> answers Get_screenshot_as_png (before_capture first_capture_refused)
   \<and> answers Get_screenshot_as_png (skip_fault (before_capture first_capture_refused))
   \<and> (\<exists>r s' b. take_screenshot (running first_capture_refused) = (Inr r, s')
         \<and> files s' (path r) = Some b \<and> b \<in> range (pixels (page ''https://www.bing.com/'')))
   \<and> fst (take_screenshot (running first_capture_refused))
        \<noteq> Inl (HTTPException 500 (Lit Screenshot_completely_failed))"
proof -
  let ?d = first_capture_refused
  let ?t = "page ''https://www.bing.com/''"
  have h1: "driver (running ?d) = Some ?d" by (simp add: running_def)
  have h2: "map_of (windows ?d) (current ?d) = Some ?t"
    by (simp add: first_capture_refused_def two_tabs_def)
  have a: "answers Get_current_url ?d"
    by (simp add: first_capture_refused_def answers_def answered_def)
  have b: "\<not> answers Get_screenshot_as_png (before_capture ?d)"
    by (simp add: before_capture_example answers_def refusing_def)
  have c: "answers Get_screenshot_as_png (skip_fault (before_capture ?d))"
    by (simp add: before_capture_example skip_fault_def answers_def answered_def)
  have w: "fs_writable (running ?d)" by (simp add: running_def)
  note th = take_screenshot_tiers [OF h1 h2]
  from th a c w have 1: "\<exists>r s' b. take_screenshot (running ?d) = (Inr r, s')
         \<and> files s' (path r) = Some b \<and> b \<in> range (pixels ?t)"
    by blast
  from th c have 2: "fst (take_screenshot (running ?d))
        \<noteq> Inl (HTTPException 500 (Lit Screenshot_completely_failed))"
    by blast
  from a b c 1 2 show ?thesis by blast
qed

text \<open>
  Claim C4, as stated, fails: \<open>switch_tab\<close> tests the handle before the driver, so
  without a browser and without a handle the answer is the 400 of the missing handle,
  not the 422 of the browser that is not started.
\<close>

theorem switch_tab_without_handle_not_started:
  "driver stopped = None
   \<and> handle_request (Api_switch_tab \<lparr>TabRequest.handle = None, url = None\<rparr>) stopped =
       (Inl (HTTPException 400 (Lit Missing_handle_parameter)), stopped)
   \<and> HTTPException 400 (Lit Missing_handle_parameter) \<noteq> not_started"
  by (simp add: answer_def switch_tab_def falsy_def not_started_def prog_defs example_defs)

text \<open>
  Claim C4, amended. Without a browser, every route but the status answers with the
  422 (browser not started) and leaves the state as it is, for every input that passes
  the test the handler makes before it looks at the driver; \<open>switch_tab\<close> without a
  handle and \<open>execute_script\<close> without a script answer with their 400 instead, the state
  unchanged as well.
\<close>

theorem not_running_after_validation:
  assumes "driver s = None" and "operation \<noteq> Api_status"
  shows "handle_request operation s =
     (Inl (case operation of
             Api_switch_tab r \<Rightarrow>
               if falsy (TabRequest.handle r) then HTTPException 400 (Lit Missing_handle_parameter)
               else not_started
           | Api_execute_script r \<Rightarrow>
               if script r = [] then HTTPException 400 (Lit Missing_script) else not_started
           | _ \<Rightarrow> not_started), s)"
  using assms
  by (cases operation)
     (simp_all add: answer_def bnd_def raise_def take_screenshot_def navigate_to_url_def
       open_new_tab_def list_tabs_def switch_tab_def close_tab_def execute_script_def)

text \<open>
  C4 at the state without a browser, for a navigation and for closing a tab.
\<close>

theorem not_running_after_validation_witness:
  "driver stopped = None
   \<and> handle_request (Api_navigate \<lparr>URLRequest.url = ''example.com''\<rparr>) stopped =
       (Inl not_started, stopped)
   \<and> handle_request (Api_close_tab \<lparr>TabRequest.handle = None, url = None\<rparr>) stopped =
       (Inl not_started, stopped)"
  using not_running_after_validation [of stopped "Api_navigate \<lparr>URLRequest.url = ''example.com''\<rparr>"]
    not_running_after_validation [of stopped "Api_close_tab \<lparr>TabRequest.handle = None, url = None\<rparr>"]
  by (simp add: stopped_def)




text \<open>
  Claim C6, as stated, fails: when the resize is done, the capture raises and the
  driver then refuses the command that restores the size too, the handler swallows that
  (\<^verbatim>\<open>except: pass\<close>), returns the backup capture, and the window keeps the size of the page.
\<close>

theorem window_size_lost_after_resize:
  "window_size lost_after_resize = (2560, 1440)
   \<and> take_full_page_screenshot_safely lost_after_resize =
       (Inr [137, 80, 78, 71, 2560, 1440], two_tabs\<lparr>window_size := (1280, 4000)\<rparr>)"
  by (simp add: lost_after_resize_def take_full_page_screenshot_safely_def resize_and_capture_def
      page_size_def as_int_def driver_defs script_defs prog_defs example_defs)

text \<open>
  Claim C6, amended. \<open>take_full_page_screenshot_safely\<close> leaves the window at the size it
  had, on every path, also when the resize or the capture in the resized window raises,
  provided the driver does not refuse the command that sets the window to that size.
\<close>

theorem window_size_restored:
  assumes "never_refuses (Set_window_size (fst (window_size d)) (snd (window_size d))) d"
  shows "window_size (snd (take_full_page_screenshot_safely d)) = window_size d"
proof -
  have "size_kept (window_size d) d"
    using assms by (simp add: size_kept_def)
  then have "size_kept (window_size d) (snd (take_full_page_screenshot_safely d))"
    by (rule triple_snd [OF size_kept_full_page])
  then show ?thesis by (simp add: size_kept_def)
qed

text \<open>
  C6 at a concrete state: the resize is done, the capture in the resized window is
  refused, the size is restored.
\<close>

theorem window_size_restored_witness:
  "never_refuses (Set_window_size 2560 1440) capture_refused_after_resize
   \<and> window_size capture_refused_after_resize = (2560, 1440)
   \<and> window_size (snd (take_full_page_screenshot_safely capture_refused_after_resize)) = (2560, 1440)"
  using window_size_restored [of capture_refused_after_resize]
  by (simp add: capture_refused_after_resize_def never_refuses_def two_tabs_def answered_def
      refusing_def)

text \<open>
  Claim C7 (listTabs leaves the current tab as it was, also when the enumeration fails
  partway). The handler switches back only at the end of its \<^verbatim>\<open>try\<close>: with window A
  current, when the title of window B is refused after the switch to B, \<open>list_tabs\<close>
  raises its 500 and window B stays current.
\<close>

theorem list_tabs_failure_leaves_other_tab_current:
  "map_option current (driver (running title_of_B_refused)) = Some ''A''
   \<and> list_tabs (running title_of_B_refused) =
       (Inl (HTTPException 500 (Fmt List_tabs_failed WebDriverException)),
        running (two_tabs\<lparr>current := ''B''\<rparr>))"
  by (simp add: title_of_B_refused_def list_tabs_def driver_defs prog_defs example_defs)

text \<open>
  Claim C8, as stated, fails: the reads of the title and the url in the
  \<^verbatim>\<open>except TimeoutException\<close> branch are not protected; when the page load times out and
  the driver then refuses the read of the title, the exception of the driver leaves the
  handler.
\<close>

theorem navigate_timeout_then_title_refused:
  "navigate_to_url \<lparr>URLRequest.url = ''example.com''\<rparr> (running title_refused_after_timeout) =
     (Inl WebDriverException, running two_tabs)"
  by (simp add: title_refused_after_timeout_def navigate_to_url_def title_and_url_def format_url_def
      driver_defs prog_defs example_defs)

text \<open>
  Claim C8, amended. When \<^verbatim>\<open>driver.get\<close> raises TimeoutException the handler answers with
  what reading the current title and url gives: the title and url of the page in the
  current window when the driver answers the two reads, and the exception of the driver,
  unwrapped, when it refuses the read of the title. \<open>wait_for_page_load\<close> never raises;
  and with a driver that answers, the navigation returns the title and url of the loaded
  page however long the page keeps loading, and leaves the browser with that page in the
  current window.
\<close>

theorem navigate_timeouts_are_soft:
  "(driver s = Some d \<and> faults d = f # fs \<and> f (Get (format_url u)) = Some TimeoutException \<longrightarrow>
      navigate_to_url \<lparr>URLRequest.url = u\<rparr> s = title_and_url (s\<lparr>driver := Some (d\<lparr>faults := fs\<rparr>)\<rparr>)
      \<and> (map_of (windows d) (current d) = Some t
           \<and> answers Get_title (d\<lparr>faults := fs\<rparr>)
           \<and> answers Get_current_url (skip_fault (d\<lparr>faults := fs\<rparr>)) \<longrightarrow>
           navigate_to_url \<lparr>URLRequest.url = u\<rparr> s =
             (Inr \<lparr>BasicResponse.title = Some (tab_title t), url = Some (tab_url t)\<rparr>,
              s\<lparr>driver := Some (skip_fault (skip_fault (d\<lparr>faults := fs\<rparr>)))\<rparr>))
      \<and> (fs = [] \<and> map_of (windows d) (current d) = Some t \<longrightarrow>
           navigate_to_url \<lparr>URLRequest.url = u\<rparr> s =
             (Inr \<lparr>BasicResponse.title = Some (tab_title t), url = Some (tab_url t)\<rparr>,
              s\<lparr>driver := Some (d\<lparr>faults := []\<rparr>)\<rparr>))
      \<and> (\<forall>g gs e. fs = g # gs \<and> g Get_title = Some e \<longrightarrow>
           navigate_to_url \<lparr>URLRequest.url = u\<rparr> s =
             (Inl e, s\<lparr>driver := Some (d\<lparr>faults := gs\<rparr>)\<rparr>)))
   \<and> fst (wait_for_page_load timeout d') = Inr ()
   \<and> (driver s = Some d \<and> faults d = [] \<and> map_of (windows d) (current d) = Some t \<longrightarrow>
        (\<exists>a b. navigate_to_url \<lparr>URLRequest.url = u\<rparr> s =
           (Inr \<lparr>BasicResponse.title = Some (tab_title (web d (format_url u))),
                 url = Some (tab_url (web d (format_url u)))\<rparr>,
            s\<lparr>driver := Some (set_tab ((web d (format_url u))\<lparr>loading := a, images_loading := b\<rparr>) d)\<rparr>)))"
proof -
  have A: "navigate_to_url \<lparr>URLRequest.url = u\<rparr> s =
      title_and_url (s\<lparr>driver := Some (d\<lparr>faults := fs\<rparr>)\<rparr>)"
    if a: "driver s = Some d \<and> faults d = f # fs \<and> f (Get (format_url u)) = Some TimeoutException"
  proof -
    from a have "driver_get (format_url u) d = (Inl TimeoutException, d\<lparr>faults := fs\<rparr>)"
      by (simp add: driver_get_def issue_def)
    with a show ?thesis
      by (simp add: navigate_to_url_def try_except_def bnd_def on_driver_def)
  qed
  have B: "title_and_url (s\<lparr>driver := Some (d\<lparr>faults := fs\<rparr>)\<rparr>) =
      (Inr \<lparr>BasicResponse.title = Some (tab_title t), url = Some (tab_url t)\<rparr>,
       s\<lparr>driver := Some (skip_fault (skip_fault (d\<lparr>faults := fs\<rparr>)))\<rparr>)"
    if "map_of (windows d) (current d) = Some t \<and> answers Get_title (d\<lparr>faults := fs\<rparr>)
        \<and> answers Get_current_url (skip_fault (d\<lparr>faults := fs\<rparr>))"
    using that
      title_and_url_answered [of "s\<lparr>driver := Some (d\<lparr>faults := fs\<rparr>)\<rparr>" "d\<lparr>faults := fs\<rparr>" t]
    by simp
  have C: "title_and_url (s\<lparr>driver := Some (d\<lparr>faults := fs\<rparr>)\<rparr>) =
      (Inr \<lparr>BasicResponse.title = Some (tab_title t), url = Some (tab_url t)\<rparr>,
       s\<lparr>driver := Some (d\<lparr>faults := []\<rparr>)\<rparr>)"
    if "fs = [] \<and> map_of (windows d) (current d) = Some t"
    using that
    by (simp add: title_and_url_def bnd_def ret_def on_driver_def
        title_no_fault [of _ t] current_url_no_fault [of _ t])
  have D: "title_and_url (s\<lparr>driver := Some (d\<lparr>faults := fs\<rparr>)\<rparr>) =
      (Inl e, s\<lparr>driver := Some (d\<lparr>faults := gs\<rparr>)\<rparr>)"
    if "fs = g # gs \<and> g Get_title = Some e" for g gs e
    using that
      title_and_url_title_refused [of "s\<lparr>driver := Some (d\<lparr>faults := fs\<rparr>)\<rparr>" "d\<lparr>faults := fs\<rparr>" g gs e]
    by simp
  have E: "fst (wait_for_page_load timeout d') = Inr ()"
    by (rule wait_never_raises)
  have F: "\<exists>a b. navigate_to_url \<lparr>URLRequest.url = u\<rparr> s =
           (Inr \<lparr>BasicResponse.title = Some (tab_title (web d (format_url u))),
                 url = Some (tab_url (web d (format_url u)))\<rparr>,
            s\<lparr>driver := Some (set_tab ((web d (format_url u))\<lparr>loading := a, images_loading := b\<rparr>) d)\<rparr>)"
    if "driver s = Some d \<and> faults d = [] \<and> map_of (windows d) (current d) = Some t"
    using that by (intro navigate_loads_page) auto
  from A B C D E F show ?thesis by (intro conjI impI allI) simp_all
qed

text \<open>
  C8 at concrete states: a load that times out, a load that times out before a refused
  read of the title, and a web whose pages do not become ready within the waits.
\<close>

theorem navigate_timeouts_are_soft_witness:
  "navigate_to_url \<lparr>URLRequest.url = ''example.com''\<rparr> (running load_times_out) =
     (Inr \<lparr>BasicResponse.title = Some (tab_title (page ''https://www.bing.com/'')),
           url = Some (tab_url (page ''https://www.bing.com/''))\<rparr>, running two_tabs)
   \<and> navigate_to_url \<lparr>URLRequest.url = ''example.com''\<rparr> (running title_refused_after_timeout) =
     (Inl WebDriverException, running two_tabs)
   \<and> loading (slow_page ''https://example.com'') > polls 30
   \<and> (\<exists>a b. navigate_to_url \<lparr>URLRequest.url = ''example.com''\<rparr> (running slow_web) =
     (Inr \<lparr>BasicResponse.title = Some (tab_title (slow_page ''https://example.com'')),
           url = Some (tab_url (slow_page ''https://example.com''))\<rparr>,
      (running slow_web)\<lparr>driver := Some (set_tab
         ((slow_page ''https://example.com'')\<lparr>loading := a, images_loading := b\<rparr>) slow_web)\<rparr>))"
proof -
  let ?t = "page ''https://www.bing.com/''"
  have a: "driver (running load_times_out) = Some load_times_out
      \<and> faults load_times_out = refused TimeoutException # []
      \<and> refused TimeoutException (Get (format_url ''example.com'')) = Some TimeoutException"
    by (simp add: running_def load_times_out_def refused_def)
  have b: "[] = ([] :: (command \<Rightarrow> exn option) list)
      \<and> map_of (windows load_times_out) (current load_times_out) = Some ?t"
    by (simp add: load_times_out_def two_tabs_def)
  have c: "(running load_times_out)\<lparr>driver := Some (load_times_out\<lparr>faults := []\<rparr>)\<rparr> = running two_tabs"
    by (simp add: running_def load_times_out_def two_tabs_def)
  from navigate_timeouts_are_soft [of "running load_times_out" load_times_out
      "refused TimeoutException" "[]" "''example.com''" ?t 0 two_tabs] a b
  have "navigate_to_url \<lparr>URLRequest.url = ''example.com''\<rparr> (running load_times_out) =
      (Inr \<lparr>BasicResponse.title = Some (tab_title ?t), url = Some (tab_url ?t)\<rparr>,
       (running load_times_out)\<lparr>driver := Some (load_times_out\<lparr>faults := []\<rparr>)\<rparr>)"
    by blast
  then have 1: "navigate_to_url \<lparr>URLRequest.url = ''example.com''\<rparr> (running load_times_out) =
      (Inr \<lparr>BasicResponse.title = Some (tab_title ?t), url = Some (tab_url ?t)\<rparr>, running two_tabs)"
    by (simp only: c)
  let ?r = title_refused_after_timeout
  have a': "driver (running ?r) = Some ?r
      \<and> faults ?r = refused TimeoutException # [refused WebDriverException]
      \<and> refused TimeoutException (Get (format_url ''example.com'')) = Some TimeoutException"
    by (simp add: running_def title_refused_after_timeout_def refused_def)
  have b': "[refused WebDriverException] = refused WebDriverException # []
      \<and> refused WebDriverException Get_title = Some WebDriverException"
    by (simp add: refused_def)
  have c': "(running ?r)\<lparr>driver := Some (?r\<lparr>faults := []\<rparr>)\<rparr> = running two_tabs"
    by (simp add: running_def title_refused_after_timeout_def two_tabs_def)
  from navigate_timeouts_are_soft [of "running ?r" ?r
      "refused TimeoutException" "[refused WebDriverException]" "''example.com''" ?t 0 two_tabs] a' b'
  have "navigate_to_url \<lparr>URLRequest.url = ''example.com''\<rparr> (running ?r) =
      (Inl WebDriverException, (running ?r)\<lparr>driver := Some (?r\<lparr>faults := []\<rparr>)\<rparr>)"
    by blast
  then have 4: "navigate_to_url \<lparr>URLRequest.url = ''example.com''\<rparr> (running ?r) =
      (Inl WebDriverException, running two_tabs)"
    by (simp only: c')
  have d: "driver (running slow_web) = Some slow_web \<and> faults slow_web = []
      \<and> map_of (windows slow_web) (current slow_web) = Some ?t"
    by (simp add: running_def slow_web_def two_tabs_def)
  have e: "web slow_web (format_url ''example.com'') = slow_page ''https://example.com''"
    by (simp add: slow_web_def format_url_def)
  from navigate_timeouts_are_soft [of "running slow_web" slow_web
      "refused TimeoutException" "[]" "''example.com''" ?t 0 two_tabs] d
  have "\<exists>a b. navigate_to_url \<lparr>URLRequest.url = ''example.com''\<rparr> (running slow_web) =
     (Inr \<lparr>BasicResponse.title = Some (tab_title (web slow_web (format_url ''example.com''))),
           url = Some (tab_url (web slow_web (format_url ''example.com'')))\<rparr>,
      (running slow_web)\<lparr>driver := Some (set_tab
         ((web slow_web (format_url ''example.com''))\<lparr>loading := a, images_loading := b\<rparr>) slow_web)\<rparr>)"
    by blast
  then have 2: "\<exists>a b. navigate_to_url \<lparr>URLRequest.url = ''example.com''\<rparr> (running slow_web) =
     (Inr \<lparr>BasicResponse.title = Some (tab_title (slow_page ''https://example.com'')),
           url = Some (tab_url (slow_page ''https://example.com''))\<rparr>,
      (running slow_web)\<lparr>driver := Some (set_tab
         ((slow_page ''https://example.com'')\<lparr>loading := a, images_loading := b\<rparr>) slow_web)\<rparr>)"
    by (simp only: e)
  have 3: "loading (slow_page ''https://example.com'') > polls 30"
    by (simp add: slow_page_def polls_def)
  from 1 2 3 4 show ?thesis by blast
qed



text \<open>
  Claim C10 (\<open>format_url\<close> keys on the literal prefixes \<^verbatim>\<open>http://\<close> and \<^verbatim>\<open>https://\<close>
  only). Every string without one of the two prefixes gets \<^verbatim>\<open>https://\<close> prepended, also
  one that carries another scheme, and a string is returned unchanged exactly when it
  starts with one of the two prefixes.
\<close>

theorem format_url_passes_only_http:
  "(\<not> prefix ''http://'' u \<and> \<not> prefix ''https://'' u \<longrightarrow> format_url u = ''https://'' @ u)
   \<and> format_url ''ftp://host'' = ''https://ftp://host''
   \<and> format_url ''file:///path'' = ''https://file:///path''
   \<and> (format_url u = u \<longleftrightarrow> prefix ''http://'' u \<or> prefix ''https://'' u)"
  by (simp add: format_url_def)

text \<open>
  C10 at a string with a scheme in the middle and at an upper-case scheme.
\<close>

theorem format_url_passes_only_http_witness:
  "format_url ''example.com/ftp://x'' = ''https://example.com/ftp://x''
   \<and> format_url ''HTTP://example.com'' = ''https://HTTP://example.com''"
  using format_url_passes_only_http [of "''example.com/ftp://x''"]
    format_url_passes_only_http [of "''HTTP://example.com''"]
  by simp

end
